theory Spec2Isabelle
  imports Main
begin

section \<open>ngx-surreal: the SurrealDB driver behind RxJS streams\<close>

text \<open>
  The library consists of \<^verbatim>\<open>SurrealModule\<close> (surreal.module.ts), which registers a
  configuration value and a factory for the service, and \<^verbatim>\<open>SurrealService\<close>
  (surreal.service.ts), which owns one driver client (\<^verbatim>\<open>new Surreal()\<close>) and has one
  operation per driver operation, each of the form \<^verbatim>\<open>from(this.db.m(...))\<close>.

  The driver (package surrealdb), the stream library (rxjs), the dependency injector
  and \<^verbatim>\<open>computed\<close> (Angular) and the \<^verbatim>\<open>URL\<close> constructor (the JavaScript host) are
  not part of the repository. The driver and the URL parser are parameters of the
  model; of rxjs and Angular the model has the few operations the library calls. A
  driver operation answers a call with a promise or throws in the call itself; what it
  throws leaves the method of the service unchanged.
\<close>

subsection \<open>JavaScript values\<close>

datatype jsval =
    Undefined
  | Null
  | JBool bool
  | JNum int
  | JStr string
  | JArr "jsval list"
  | JObj "(string \<times> jsval) list"
  | JFun nat

text \<open>\<^verbatim>\<open>!x\<close> is true for the falsy values: undefined, null, false, 0 and the empty string.\<close>

fun truthy :: "jsval \<Rightarrow> bool" where
  "truthy Undefined = False"
| "truthy Null = False"
| "truthy (JBool b) = b"
| "truthy (JNum n) = (n \<noteq> 0)"
| "truthy (JStr s) = (s \<noteq> [])"
| "truthy (JArr xs) = True"
| "truthy (JObj ps) = True"
| "truthy (JFun f) = True"

fun typeof :: "jsval \<Rightarrow> string" where
  "typeof Undefined = ''undefined''"
| "typeof Null = ''object''"
| "typeof (JBool b) = ''boolean''"
| "typeof (JNum n) = ''number''"
| "typeof (JStr s) = ''string''"
| "typeof (JArr xs) = ''object''"
| "typeof (JObj ps) = ''object''"
| "typeof (JFun f) = ''function''"

text \<open>
  The i-th parameter of a call with argument list \<open>args\<close>: a parameter the caller
  left out is undefined.
\<close>

definition arg :: "jsval list \<Rightarrow> nat \<Rightarrow> jsval" where
  "arg args i = (if i < length args then args ! i else Undefined)"

subsection \<open>Promises, streams and subscribers\<close>

text \<open>
  What evaluating a driver expression comes to. Normally it is a promise, taken at what
  it settles to (\<open>Pending\<close> is a promise that never settles). \<open>Threw x\<close> is the other
  case: the driver throws \<open>x\<close> in the call itself and no promise is returned.
\<close>

datatype outcome = Resolved jsval | Rejected jsval | Pending | Threw jsval

datatype notification = Next jsval | Error jsval | Complete

text \<open>
  The only streams the library builds are \<^verbatim>\<open>from(promise)\<close>. Such a stream holds the
  promise it was built from. On subscription rxjs calls \<^verbatim>\<open>promise.then\<close>: a resolved
  value is passed to \<^verbatim>\<open>next\<close> and followed by \<^verbatim>\<open>complete\<close>, a rejection is passed to
  \<^verbatim>\<open>error\<close>. (No stream is built from a call that threw: the exception leaves the
  method before \<^verbatim>\<open>from\<close> is applied. The last equation of \<open>notifications\<close> is there
  for totality only.)
\<close>

datatype observable = FromPromise outcome

definition from_rx :: "outcome \<Rightarrow> observable" where
  "from_rx p = FromPromise p"

fun notifications :: "observable \<Rightarrow> notification list" where
  "notifications (FromPromise (Resolved v)) = [Next v, Complete]"
| "notifications (FromPromise (Rejected e)) = [Error e]"
| "notifications (FromPromise Pending) = []"
| "notifications (FromPromise (Threw x)) = []"

text \<open>
  The argument of \<^verbatim>\<open>subscribe\<close>: which of the three handlers the subscriber gave.
  \<^verbatim>\<open>subscribe()\<close> gives none.
\<close>

record observer =
  obs_id :: nat
  on_next :: bool
  on_error :: bool
  on_complete :: bool

definition no_handlers :: observer where
  "no_handlers = \<lparr>obs_id = 0, on_next = False, on_error = False, on_complete = False\<rparr>"

definition full_observer :: "nat \<Rightarrow> observer" where
  "full_observer k = \<lparr>obs_id = k, on_next = True, on_error = True, on_complete = True\<rparr>"

subsection \<open>The driver and the host\<close>

datatype operation =
    M_authenticate | M_close | M_connect | M_create | M_delete | M_export | M_import
  | M_info | M_insert | M_insertRelation | M_invalidate | M_kill | M_let | M_live
  | M_merge | M_patch | M_ping | M_query | M_queryRaw | M_ready | M_relate | M_rpc
  | M_run | M_select | M_signin | M_signup | M_subscribeLive | M_unSubscribeLive
  | M_unset | M_update | M_upsert | M_use | M_version

text \<open>
  The driver is opaque: \<open>'d\<close> is the internal state of one client. \<open>drv_call\<close> is a
  call of an operation on a client, giving the promise it returns and the client's next state;
  the other fields are the properties the service reads. \<open>url_parse\<close> is the host's
  URL parser, \<open>None\<close> where \<^verbatim>\<open>new URL(s)\<close> throws.
\<close>

record 'd platform =
  drv_new :: "'d"
  drv_call :: "operation \<Rightarrow> jsval list \<Rightarrow> 'd \<Rightarrow> outcome \<times> 'd"
  drv_ready :: "'d \<Rightarrow> outcome"
  drv_connection :: "'d \<Rightarrow> jsval"
  drv_emitter :: "'d \<Rightarrow> jsval"
  drv_status :: "'d \<Rightarrow> jsval"
  url_parse :: "string \<Rightarrow> jsval option"

text \<open>
  The exceptions of the model: the one the module throws, the TypeError of
  \<^verbatim>\<open>new URL\<close>, the two of the injector, and \<open>DriverError x\<close> for a value \<open>x\<close> that the
  driver has thrown and that passes through the service.
\<close>

datatype error =
    DuplicateRegistration string
  | TypeError_InvalidURL
  | NullInjectorError
  | CyclicDependencyError
  | DriverError jsval

subsection \<open>Configuration, service objects and the store\<close>

text \<open>
  surreal.config.ts: \<^verbatim>\<open>SurrealConfig = ConnectionOptions & { url: string }\<close>. The
  connection options are the driver's type; they are kept as a property list.
\<close>

record SurrealConfig =
  url :: string
  options :: "(string \<times> jsval) list"

text \<open>
  A \<^verbatim>\<open>SurrealService\<close> object: \<open>db\<close> is the address of its client in the store,
  \<open>config\<close> the injected configuration. Both fields are readonly. The three
  \<^verbatim>\<open>computed\<close> fields are memo cells; they live in the store under the address of
  the service's client (each service object has a client of its own).
\<close>

record service =
  db :: nat
  config :: SurrealConfig

datatype accessor = A_connection | A_emitter | A_status

record call =
  c_client :: nat
  c_method :: operation
  c_args :: "jsval list"
  c_result :: outcome

datatype slot = NotYet | Circular | Instance service

datatype token = SURREAL_CONFIG_TOKEN | SurrealService_token

datatype provider = UseValue token SurrealConfig | UseFactory token "token list"

record injector =
  inj_ancestors :: "nat list"
  inj_module :: bool
  inj_providers :: "provider list"
  inj_service :: slot

text \<open>
  The store: the clients constructed so far and their states, the log of driver calls,
  the errors reported to the host as unhandled, what each subscriber received, the memo
  cells, and the injectors.
\<close>

record 'd world =
  n_clients :: nat
  clients :: "nat \<Rightarrow> 'd"
  calls :: "call list"
  unhandled :: "jsval list"
  delivered :: "(nat \<times> notification) list"
  memo :: "nat \<times> accessor \<Rightarrow> jsval option"
  injectors :: "injector list"

definition empty_world :: "'d platform \<Rightarrow> 'd world" where
  "empty_world P =
     \<lparr>n_clients = 0, clients = (\<lambda>_. drv_new P), calls = [], unhandled = [],
      delivered = [], memo = (\<lambda>_. None), injectors = []\<rparr>"

text \<open>
  Delivery of one notification. rxjs reports an error that meets no error handler to
  the host (\<^verbatim>\<open>reportUnhandledError\<close>); a value or a completion that meets no handler
  is dropped.
\<close>

fun deliver :: "observer \<Rightarrow> notification \<Rightarrow> 'd world \<Rightarrow> 'd world" where
  "deliver ob (Next v) w =
     (if on_next ob then w\<lparr>delivered := delivered w @ [(obs_id ob, Next v)]\<rparr> else w)"
| "deliver ob (Error e) w =
     (if on_error ob then w\<lparr>delivered := delivered w @ [(obs_id ob, Error e)]\<rparr>
      else w\<lparr>unhandled := unhandled w @ [e]\<rparr>)"
| "deliver ob Complete w =
     (if on_complete ob then w\<lparr>delivered := delivered w @ [(obs_id ob, Complete)]\<rparr> else w)"

definition subscribe :: "observable \<Rightarrow> observer \<Rightarrow> 'd world \<Rightarrow> 'd world" where
  "subscribe obs ob w = fold (deliver ob) (notifications obs) w"

text \<open>\<^verbatim>\<open>new Surreal()\<close>: a fresh client at the next address.\<close>

definition Surreal_new :: "'d platform \<Rightarrow> 'd world \<Rightarrow> nat \<times> 'd world" where
  "Surreal_new P w =
     (n_clients w,
      w\<lparr>n_clients := Suc (n_clients w), clients := (clients w)(n_clients w := drv_new P)\<rparr>)"

text \<open>
  \<^verbatim>\<open>this.db.m(...args)\<close>: the call is made on the service's client when the expression
  is evaluated. When the driver throws in the call, the exception is the result; else the
  call is logged with the promise the driver returned.
\<close>

definition db_call ::
  "'d platform \<Rightarrow> service \<Rightarrow> operation \<Rightarrow> jsval list \<Rightarrow> 'd world
     \<Rightarrow> error + outcome \<times> 'd world" where
  "db_call P svc m args w =
     (let (r, d') = drv_call P m args (clients w (db svc))
      in case r of
           Threw x \<Rightarrow> Inl (DriverError x)
         | _ \<Rightarrow>
           Inr (r, w\<lparr>clients := (clients w)(db svc := d'),
                    calls := calls w @
                      [\<lparr>c_client = db svc, c_method = m, c_args = args, c_result = r\<rparr>]\<rparr>))"

text \<open>\<^verbatim>\<open>this.db.ready\<close>: a property of the client; reading it calls no operation.\<close>

definition db_ready ::
  "'d platform \<Rightarrow> service \<Rightarrow> 'd world \<Rightarrow> error + outcome \<times> 'd world" where
  "db_ready P svc w =
     (case drv_ready P (clients w (db svc)) of
        Threw x \<Rightarrow> Inl (DriverError x)
      | r \<Rightarrow> Inr (r, w))"

text \<open>
  \<^verbatim>\<open>from(e)\<close> for a driver expression \<open>e\<close>: the argument is evaluated first, and an
  exception from it leaves the method.
\<close>

definition from_result ::
  "error + outcome \<times> 'd world \<Rightarrow> error + observable \<times> 'd world" where
  "from_result r = (case r of Inl e \<Rightarrow> Inl e | Inr (p, w) \<Rightarrow> Inr (from_rx p, w))"

text \<open>\<^verbatim>\<open>new URL(s)\<close> throws a TypeError where the host's parser fails.\<close>

definition URL_new :: "'d platform \<Rightarrow> string \<Rightarrow> error + jsval" where
  "URL_new P s = (case url_parse P s of None \<Rightarrow> Inl TypeError_InvalidURL | Some u \<Rightarrow> Inr u)"

subsection \<open>surreal.service.ts: the accessors\<close>

text \<open>
  Angular's \<^verbatim>\<open>computed(f)\<close> is a memoised signal: the first read runs \<open>f\<close> and keeps the
  value, and \<open>f\<close> runs again only after a signal that \<open>f\<close> read has changed. The three
  functions below read a plain property of the driver and no signal, so nothing ever
  marks the cell as stale.
\<close>

definition computed_read ::
  "nat \<times> accessor \<Rightarrow> ('d world \<Rightarrow> jsval) \<Rightarrow> 'd world \<Rightarrow> jsval \<times> 'd world" where
  "computed_read k f w =
     (case memo w k of
        Some v \<Rightarrow> (v, w)
      | None \<Rightarrow> (f w, w\<lparr>memo := (memo w)(k \<mapsto> f w)\<rparr>))"

definition connection :: "'d platform \<Rightarrow> service \<Rightarrow> 'd world \<Rightarrow> jsval \<times> 'd world" where
  "connection P svc w =
     computed_read (db svc, A_connection) (\<lambda>w. drv_connection P (clients w (db svc))) w"

definition emitter :: "'d platform \<Rightarrow> service \<Rightarrow> 'd world \<Rightarrow> jsval \<times> 'd world" where
  "emitter P svc w =
     computed_read (db svc, A_emitter) (\<lambda>w. drv_emitter P (clients w (db svc))) w"

definition status :: "'d platform \<Rightarrow> service \<Rightarrow> 'd world \<Rightarrow> jsval \<times> 'd world" where
  "status P svc w =
     computed_read (db svc, A_status) (\<lambda>w. drv_status P (clients w (db svc))) w"

subsection \<open>surreal.service.ts: the methods\<close>

text \<open>
  An operation with a rest parameter takes the argument list; an operation with named
  parameters takes one value for each.
\<close>

definition authenticate ::
  "'d platform \<Rightarrow> service \<Rightarrow> jsval list \<Rightarrow> 'd world \<Rightarrow> error + observable \<times> 'd world" where
  "authenticate P svc args w = from_result (db_call P svc M_authenticate args w)"

definition close :: "'d platform \<Rightarrow> service \<Rightarrow> 'd world \<Rightarrow> error + observable \<times> 'd world" where
  "close P svc w = from_result (db_call P svc M_close [] w)"

definition connect :: "'d platform \<Rightarrow> service \<Rightarrow> 'd world \<Rightarrow> error + observable \<times> 'd world" where
  "connect P svc w =
     (let u = url (config svc); opts = options (config svc)
      in case URL_new P u of
           Inl e \<Rightarrow> Inl e
         | Inr uo \<Rightarrow> from_result (db_call P svc M_connect [uo, JObj opts] w))"

definition create ::
  "'d platform \<Rightarrow> service \<Rightarrow> jsval \<Rightarrow> jsval \<Rightarrow> 'd world \<Rightarrow> error + observable \<times> 'd world" where
  "create P svc thing data w = from_result (db_call P svc M_create [thing, data] w)"

definition delete ::
  "'d platform \<Rightarrow> service \<Rightarrow> jsval \<Rightarrow> 'd world \<Rightarrow> error + observable \<times> 'd world" where
  "delete P svc thing w = from_result (db_call P svc M_delete [thing] w)"

definition export ::
  "'d platform \<Rightarrow> service \<Rightarrow> jsval list \<Rightarrow> 'd world \<Rightarrow> error + observable \<times> 'd world" where
  "export P svc args w = from_result (db_call P svc M_export args w)"

definition import_op ::
  "'d platform \<Rightarrow> service \<Rightarrow> jsval list \<Rightarrow> 'd world \<Rightarrow> error + observable \<times> 'd world" where
  "import_op P svc args w = from_result (db_call P svc M_import args w)"

definition info :: "'d platform \<Rightarrow> service \<Rightarrow> 'd world \<Rightarrow> error + observable \<times> 'd world" where
  "info P svc w = from_result (db_call P svc M_info [] w)"

definition insert_op ::
  "'d platform \<Rightarrow> service \<Rightarrow> jsval \<Rightarrow> jsval \<Rightarrow> 'd world \<Rightarrow> error + observable \<times> 'd world" where
  "insert_op P svc table data w =
     (if \<not> truthy table then from_result (db_call P svc M_insert [data] w)
      else from_result (db_call P svc M_insert [table, data] w))"

definition insertRelation ::
  "'d platform \<Rightarrow> service \<Rightarrow> jsval \<Rightarrow> jsval \<Rightarrow> 'd world \<Rightarrow> error + observable \<times> 'd world" where
  "insertRelation P svc thing data w =
     (if \<not> truthy thing then from_result (db_call P svc M_insertRelation [data] w)
      else from_result (db_call P svc M_insertRelation [thing, data] w))"

definition invalidate :: "'d platform \<Rightarrow> service \<Rightarrow> 'd world \<Rightarrow> error + observable \<times> 'd world" where
  "invalidate P svc w = from_result (db_call P svc M_invalidate [] w)"

definition kill ::
  "'d platform \<Rightarrow> service \<Rightarrow> jsval list \<Rightarrow> 'd world \<Rightarrow> error + observable \<times> 'd world" where
  "kill P svc args w = from_result (db_call P svc M_kill args w)"

definition let_op ::
  "'d platform \<Rightarrow> service \<Rightarrow> jsval list \<Rightarrow> 'd world \<Rightarrow> error + observable \<times> 'd world" where
  "let_op P svc args w = from_result (db_call P svc M_let args w)"

definition live ::
  "'d platform \<Rightarrow> service \<Rightarrow> jsval list \<Rightarrow> 'd world \<Rightarrow> error + observable \<times> 'd world" where
  "live P svc args w = from_result (db_call P svc M_live args w)"

definition merge_op ::
  "'d platform \<Rightarrow> service \<Rightarrow> jsval \<Rightarrow> jsval \<Rightarrow> 'd world \<Rightarrow> error + observable \<times> 'd world" where
  "merge_op P svc thing data w = from_result (db_call P svc M_merge [thing, data] w)"

definition patch ::
  "'d platform \<Rightarrow> service \<Rightarrow> jsval \<Rightarrow> jsval \<Rightarrow> jsval \<Rightarrow> 'd world \<Rightarrow> error + observable \<times> 'd world" where
  "patch P svc thing data diff w = from_result (db_call P svc M_patch [thing, data, diff] w)"

definition ping :: "'d platform \<Rightarrow> service \<Rightarrow> 'd world \<Rightarrow> error + observable \<times> 'd world" where
  "ping P svc w = from_result (db_call P svc M_ping [] w)"

definition query ::
  "'d platform \<Rightarrow> service \<Rightarrow> jsval list \<Rightarrow> 'd world \<Rightarrow> error + observable \<times> 'd world" where
  "query P svc args w = from_result (db_call P svc M_query args w)"

definition queryRaw ::
  "'d platform \<Rightarrow> service \<Rightarrow> jsval list \<Rightarrow> 'd world \<Rightarrow> error + observable \<times> 'd world" where
  "queryRaw P svc args w = from_result (db_call P svc M_queryRaw args w)"

text \<open>\<^verbatim>\<open>from(this.db.ready)\<close> reads a property of the client; the driver is not called.\<close>

definition ready :: "'d platform \<Rightarrow> service \<Rightarrow> 'd world \<Rightarrow> error + observable \<times> 'd world" where
  "ready P svc w = from_result (db_ready P svc w)"

definition relate ::
  "'d platform \<Rightarrow> service \<Rightarrow> jsval \<Rightarrow> jsval \<Rightarrow> jsval \<Rightarrow> jsval \<Rightarrow> 'd world
     \<Rightarrow> error + observable \<times> 'd world" where
  "relate P svc fromRecord thing toRecord data w =
     from_result (db_call P svc M_relate [fromRecord, thing, toRecord, data] w)"

definition rpc ::
  "'d platform \<Rightarrow> service \<Rightarrow> jsval list \<Rightarrow> 'd world \<Rightarrow> error + observable \<times> 'd world" where
  "rpc P svc args w = from_result (db_call P svc M_rpc args w)"

definition run ::
  "'d platform \<Rightarrow> service \<Rightarrow> jsval \<Rightarrow> jsval \<Rightarrow> jsval \<Rightarrow> 'd world \<Rightarrow> error + observable \<times> 'd world" where
  "run P svc name versionOrArgs args w =
     (if typeof versionOrArgs = ''string''
      then from_result (db_call P svc M_run [name, versionOrArgs, args] w)
      else from_result (db_call P svc M_run [name, args] w))"

definition select ::
  "'d platform \<Rightarrow> service \<Rightarrow> jsval \<Rightarrow> 'd world \<Rightarrow> error + observable \<times> 'd world" where
  "select P svc thing w = from_result (db_call P svc M_select [thing] w)"

definition signin ::
  "'d platform \<Rightarrow> service \<Rightarrow> jsval list \<Rightarrow> 'd world \<Rightarrow> error + observable \<times> 'd world" where
  "signin P svc args w = from_result (db_call P svc M_signin args w)"

definition signup ::
  "'d platform \<Rightarrow> service \<Rightarrow> jsval list \<Rightarrow> 'd world \<Rightarrow> error + observable \<times> 'd world" where
  "signup P svc args w = from_result (db_call P svc M_signup args w)"

definition subscribeLive ::
  "'d platform \<Rightarrow> service \<Rightarrow> jsval list \<Rightarrow> 'd world \<Rightarrow> error + observable \<times> 'd world" where
  "subscribeLive P svc args w = from_result (db_call P svc M_subscribeLive args w)"

definition unsubscribeLive ::
  "'d platform \<Rightarrow> service \<Rightarrow> jsval list \<Rightarrow> 'd world \<Rightarrow> error + observable \<times> 'd world" where
  "unsubscribeLive P svc args w = from_result (db_call P svc M_unSubscribeLive args w)"

text \<open>
  An earlier revision of the service, kept in the sources after surreal.module.ts,
  declares \<^verbatim>\<open>unsubscribeLive(queryUuid: Uuid)\<close> and calls
  \<^verbatim>\<open>this.db.unSubscribeLive(queryUuid, () => void 0)\<close>: the driver is given a callback
  that does nothing and that the caller has not passed.
\<close>

definition noop_callback :: jsval where
  "noop_callback = JFun 0"

definition unsubscribeLive_earlier ::
  "'d platform \<Rightarrow> service \<Rightarrow> jsval \<Rightarrow> 'd world \<Rightarrow> error + observable \<times> 'd world" where
  "unsubscribeLive_earlier P svc queryUuid w =
     from_result (db_call P svc M_unSubscribeLive [queryUuid, noop_callback] w)"

definition unset ::
  "'d platform \<Rightarrow> service \<Rightarrow> jsval list \<Rightarrow> 'd world \<Rightarrow> error + observable \<times> 'd world" where
  "unset P svc args w = from_result (db_call P svc M_unset args w)"

definition update ::
  "'d platform \<Rightarrow> service \<Rightarrow> jsval \<Rightarrow> jsval \<Rightarrow> 'd world \<Rightarrow> error + observable \<times> 'd world" where
  "update P svc thing data w = from_result (db_call P svc M_update [thing, data] w)"

definition upsert ::
  "'d platform \<Rightarrow> service \<Rightarrow> jsval \<Rightarrow> jsval \<Rightarrow> 'd world \<Rightarrow> error + observable \<times> 'd world" where
  "upsert P svc thing data w = from_result (db_call P svc M_upsert [thing, data] w)"

definition use ::
  "'d platform \<Rightarrow> service \<Rightarrow> jsval \<Rightarrow> 'd world \<Rightarrow> error + observable \<times> 'd world" where
  "use P svc opts w = from_result (db_call P svc M_use [opts] w)"

definition version :: "'d platform \<Rightarrow> service \<Rightarrow> 'd world \<Rightarrow> error + observable \<times> 'd world" where
  "version P svc w = from_result (db_call P svc M_version [] w)"

text \<open>
  A call \<^verbatim>\<open>service.m(...args)\<close> from application code: the argument list is bound to
  the parameters of the operation.
\<close>

fun invoke ::
  "'d platform \<Rightarrow> service \<Rightarrow> operation \<Rightarrow> jsval list \<Rightarrow> 'd world
     \<Rightarrow> error + observable \<times> 'd world" where
  "invoke P svc M_authenticate args w = authenticate P svc args w"
| "invoke P svc M_close args w = close P svc w"
| "invoke P svc M_connect args w = connect P svc w"
| "invoke P svc M_create args w = create P svc (arg args 0) (arg args 1) w"
| "invoke P svc M_delete args w = delete P svc (arg args 0) w"
| "invoke P svc M_export args w = export P svc args w"
| "invoke P svc M_import args w = import_op P svc args w"
| "invoke P svc M_info args w = info P svc w"
| "invoke P svc M_insert args w = insert_op P svc (arg args 0) (arg args 1) w"
| "invoke P svc M_insertRelation args w =
     insertRelation P svc (arg args 0) (arg args 1) w"
| "invoke P svc M_invalidate args w = invalidate P svc w"
| "invoke P svc M_kill args w = kill P svc args w"
| "invoke P svc M_let args w = let_op P svc args w"
| "invoke P svc M_live args w = live P svc args w"
| "invoke P svc M_merge args w = merge_op P svc (arg args 0) (arg args 1) w"
| "invoke P svc M_patch args w =
     patch P svc (arg args 0) (arg args 1) (arg args 2) w"
| "invoke P svc M_ping args w = ping P svc w"
| "invoke P svc M_query args w = query P svc args w"
| "invoke P svc M_queryRaw args w = queryRaw P svc args w"
| "invoke P svc M_ready args w = ready P svc w"
| "invoke P svc M_relate args w =
     relate P svc (arg args 0) (arg args 1) (arg args 2) (arg args 3) w"
| "invoke P svc M_rpc args w = rpc P svc args w"
| "invoke P svc M_run args w = run P svc (arg args 0) (arg args 1) (arg args 2) w"
| "invoke P svc M_select args w = select P svc (arg args 0) w"
| "invoke P svc M_signin args w = signin P svc args w"
| "invoke P svc M_signup args w = signup P svc args w"
| "invoke P svc M_subscribeLive args w = subscribeLive P svc args w"
| "invoke P svc M_unSubscribeLive args w = unsubscribeLive P svc args w"
| "invoke P svc M_unset args w = unset P svc args w"
| "invoke P svc M_update args w = update P svc (arg args 0) (arg args 1) w"
| "invoke P svc M_upsert args w = upsert P svc (arg args 0) (arg args 1) w"
| "invoke P svc M_use args w = use P svc (arg args 0) w"
| "invoke P svc M_version args w = version P svc w"

subsection \<open>surreal.service.ts: construction\<close>

text \<open>
  The field initialisers run first, in the order of the class body:
  \<^verbatim>\<open>db = new Surreal()\<close>, then \<^verbatim>\<open>config = inject(SURREAL_CONFIG_TOKEN)\<close>, where
  \<open>injected\<close> is what the injector finds for the token (\<open>None\<close>: no provider, and
  \<^verbatim>\<open>inject\<close> throws). The constructor body is \<^verbatim>\<open>this.connect().subscribe()\<close>.
\<close>

definition SurrealService_new ::
  "'d platform \<Rightarrow> SurrealConfig option \<Rightarrow> 'd world \<Rightarrow> (error + service) \<times> 'd world" where
  "SurrealService_new P injected w =
     (let (c, w1) = Surreal_new P w
      in case injected of
           None \<Rightarrow> (Inl NullInjectorError, w1)
         | Some cfg \<Rightarrow>
             (let svc = \<lparr>db = c, config = cfg\<rparr>
              in case connect P svc w1 of
                   Inl e \<Rightarrow> (Inl e, w1)
                 | Inr (obs, w2) \<Rightarrow> (Inr svc, subscribe obs no_handlers w2)))"

subsection \<open>surreal.module.ts\<close>

text \<open>
  \<^verbatim>\<open>SurrealFactory = () => new SurrealService()\<close>. The factory runs in the injection
  context of the injector that owns the provider; \<open>injected\<close> is what that context
  holds for the configuration token.
\<close>

definition SurrealFactory ::
  "'d platform \<Rightarrow> SurrealConfig option \<Rightarrow> 'd world \<Rightarrow> (error + service) \<times> 'd world" where
  "SurrealFactory P injected w = SurrealService_new P injected w"

text \<open>
  The constructor of \<^verbatim>\<open>SurrealModule\<close>. Its parameter is decorated
  \<^verbatim>\<open>@Optional() @SkipSelf()\<close>: the injector passes the module instance of an enclosing
  injector (here: the address of the injector that holds it), or null.
\<close>

definition SurrealModule_new :: "nat option \<Rightarrow> error + unit" where
  "SurrealModule_new parentModule =
     (case parentModule of
        Some m \<Rightarrow> Inl (DuplicateRegistration
          ''SurrealModule is already loaded. Import it in the AppModule or AppConfig only'')
      | None \<Rightarrow> Inr ())"

datatype ng_module = SurrealModule

record ModuleWithProviders =
  ngModule :: ng_module
  providers :: "provider list"

definition forRoot :: "SurrealConfig \<Rightarrow> ModuleWithProviders" where
  "forRoot cfg =
     \<lparr>ngModule = SurrealModule,
      providers = [UseValue SURREAL_CONFIG_TOKEN cfg,
                   UseFactory SurrealService_token [SURREAL_CONFIG_TOKEN]]\<rparr>"

subsection \<open>The injector\<close>

text \<open>
  What the model has of Angular's injector. Injectors form a tree; an injector keeps
  the list of its ancestors, nearest first. A token is looked up in the injector
  itself and then in its ancestors. The instance of a factory provider is made at the
  first lookup and kept in the provider's slot; while the factory runs the slot is
  \<open>Circular\<close>, and it stays so when the factory throws. An injector that imports a
  module makes the instance of the module class when the injector is created.
\<close>

definition injector_at :: "'d world \<Rightarrow> nat \<Rightarrow> injector option" where
  "injector_at w i = (if i < length (injectors w) then Some (injectors w ! i) else None)"

definition scope_of :: "'d world \<Rightarrow> nat \<Rightarrow> nat list" where
  "scope_of w i = i # (case injector_at w i of None \<Rightarrow> [] | Some j \<Rightarrow> inj_ancestors j)"

fun provided_config :: "provider list \<Rightarrow> SurrealConfig option" where
  "provided_config [] = None"
| "provided_config (UseValue SURREAL_CONFIG_TOKEN c # ps) =
     (case provided_config ps of None \<Rightarrow> Some c | Some c' \<Rightarrow> Some c')"
| "provided_config (p # ps) = provided_config ps"

fun provides_service :: "provider list \<Rightarrow> bool" where
  "provides_service [] = False"
| "provides_service (UseFactory SurrealService_token deps # ps) = True"
| "provides_service (p # ps) = provides_service ps"

fun resolve_config :: "'d world \<Rightarrow> nat list \<Rightarrow> SurrealConfig option" where
  "resolve_config w [] = None"
| "resolve_config w (i # js) =
     (case injector_at w i of
        None \<Rightarrow> resolve_config w js
      | Some node \<Rightarrow>
          (case provided_config (inj_providers node) of
             Some c \<Rightarrow> Some c
           | None \<Rightarrow> resolve_config w js))"

fun resolve_module :: "'d world \<Rightarrow> nat list \<Rightarrow> nat option" where
  "resolve_module w [] = None"
| "resolve_module w (i # js) =
     (case injector_at w i of
        None \<Rightarrow> resolve_module w js
      | Some node \<Rightarrow> (if inj_module node then Some i else resolve_module w js))"

fun resolve_service_owner :: "'d world \<Rightarrow> nat list \<Rightarrow> nat option" where
  "resolve_service_owner w [] = None"
| "resolve_service_owner w (i # js) =
     (case injector_at w i of
        None \<Rightarrow> resolve_service_owner w js
      | Some node \<Rightarrow>
          (if provides_service (inj_providers node) then Some i
           else resolve_service_owner w js))"

definition set_slot :: "nat \<Rightarrow> slot \<Rightarrow> 'd world \<Rightarrow> 'd world" where
  "set_slot i s w =
     (case injector_at w i of
        None \<Rightarrow> w
      | Some node \<Rightarrow> w\<lparr>injectors := (injectors w)[i := node\<lparr>inj_service := s\<rparr>]\<rparr>)"

text \<open>
  A new injector under \<open>parent\<close> (\<open>None\<close>: a root injector), importing
  \<^verbatim>\<open>SurrealModule.forRoot(config)\<close> or not. With the import, the module class is
  instantiated first: its constructor gets the module found in the enclosing
  injectors, and when it throws no injector is made.
\<close>

definition create_injector ::
  "nat option \<Rightarrow> ModuleWithProviders option \<Rightarrow> 'd world \<Rightarrow> (error + nat) \<times> 'd world" where
  "create_injector parent imported w =
     (let anc = (case parent of None \<Rightarrow> [] | Some p \<Rightarrow> scope_of w p);
          i = length (injectors w)
      in case imported of
           None \<Rightarrow>
             (Inr i, w\<lparr>injectors := injectors w @
                [\<lparr>inj_ancestors = anc, inj_module = False, inj_providers = [],
                  inj_service = NotYet\<rparr>]\<rparr>)
         | Some mwp \<Rightarrow>
             (case SurrealModule_new (resolve_module w anc) of
                Inl e \<Rightarrow> (Inl e, w)
              | Inr u \<Rightarrow>
                  (Inr i, w\<lparr>injectors := injectors w @
                     [\<lparr>inj_ancestors = anc, inj_module = True, inj_providers = providers mwp,
                       inj_service = NotYet\<rparr>]\<rparr>)))"

text \<open>
  \<^verbatim>\<open>inject(SurrealService)\<close> from injector \<open>i\<close>. The provider is the nearest one in
  scope; without any, \<^verbatim>\<open>providedIn: 'root'\<close> makes the outermost injector the owner.
\<close>

definition inject_service ::
  "'d platform \<Rightarrow> nat \<Rightarrow> 'd world \<Rightarrow> (error + service) \<times> 'd world" where
  "inject_service P i w =
     (let owner = (case resolve_service_owner w (scope_of w i) of
                     Some j \<Rightarrow> j
                   | None \<Rightarrow> last (scope_of w i))
      in case injector_at w owner of
           None \<Rightarrow> (Inl NullInjectorError, w)
         | Some node \<Rightarrow>
             (case inj_service node of
                Instance svc \<Rightarrow> (Inr svc, w)
              | Circular \<Rightarrow> (Inl CyclicDependencyError, w)
              | NotYet \<Rightarrow>
                  (case SurrealFactory P (resolve_config w (scope_of w owner))
                          (set_slot owner Circular w) of
                     (Inl e, w') \<Rightarrow> (Inl e, w')
                   | (Inr svc, w') \<Rightarrow> (Inr svc, set_slot owner (Instance svc) w'))))"

text \<open>Injecting the service \<open>n\<close> times, each time from one of the injectors \<open>js\<close>.\<close>

fun inject_all ::
  "'d platform \<Rightarrow> nat list \<Rightarrow> 'd world \<Rightarrow> (error + service) list \<times> 'd world" where
  "inject_all P [] w = ([], w)"
| "inject_all P (j # js) w =
     (let (r, w1) = inject_service P j w;
          (rs, w2) = inject_all P js w1
      in (r # rs, w2))"

subsection \<open>A driver and a host to run the model on\<close>

text \<open>
  A small driver for the concrete runs below: its state is the connection status;
  \<^verbatim>\<open>connect\<close> resolves when the server is reachable and rejects otherwise,
  \<^verbatim>\<open>close\<close> disconnects, \<^verbatim>\<open>signin\<close> rejects, \<^verbatim>\<open>rpc\<close> throws while disconnected,
  every other operation resolves to the array of its arguments. The URL parser accepts a string that starts with a letter
  and contains a colon.
\<close>

definition demo_call :: "bool \<Rightarrow> operation \<Rightarrow> jsval list \<Rightarrow> string \<Rightarrow> outcome \<times> string" where
  "demo_call reachable m args s =
     (if m = M_connect then
        (if reachable then (Resolved (JBool True), ''connected'')
         else (Rejected (JStr ''unreachable''), ''disconnected''))
      else if m = M_close then (Resolved Undefined, ''disconnected'')
      else if m = M_signin then (Rejected (JStr ''bad credentials''), s)
      else if m = M_rpc \<and> s = ''disconnected'' then (Threw (JStr ''NoActiveSocket''), s)
      else (Resolved (JArr args), s))"

definition demo_url :: "string \<Rightarrow> jsval option" where
  "demo_url s =
     (case s of
        [] \<Rightarrow> None
      | c # cs \<Rightarrow>
          (if c \<in> set ''abcdefghijklmnopqrstuvwxyz'' \<and> CHR '':'' \<in> set cs
           then Some (JObj [(''href'', JStr s)]) else None))"

definition demo_platform :: "bool \<Rightarrow> string platform" where
  "demo_platform reachable =
     \<lparr>drv_new = ''disconnected'',
      drv_call = demo_call reachable,
      drv_ready = (\<lambda>s. if s = ''connected'' then Resolved Undefined else Pending),
      drv_connection = (\<lambda>s. if s = ''disconnected'' then Undefined else JObj []),
      drv_emitter = (\<lambda>s. JObj []),
      drv_status = JStr,
      url_parse = demo_url\<rparr>"

definition demo_config :: SurrealConfig where
  "demo_config =
     \<lparr>url = ''http://localhost:8000/rpc'',
      options = [(''namespace'', JStr ''test''), (''database'', JStr ''test'')]\<rparr>"

definition bad_config :: SurrealConfig where
  "bad_config = \<lparr>url = ''localhost/rpc'', options = []\<rparr>"

definition demo_service :: service where
  "demo_service = \<lparr>db = 0, config = demo_config\<rparr>"

text \<open>
  The store after the application has registered the module in its root injector
  (\<open>demo_root\<close>) and after the service has then been injected once (\<open>demo_world\<close>).
\<close>

definition demo_root :: "string world" where
  "demo_root =
     snd (create_injector None (Some (forRoot demo_config)) (empty_world (demo_platform True)))"

definition demo_world :: "string world" where
  "demo_world = snd (inject_service (demo_platform True) 0 demo_root)"

text \<open>Two invocations on \<open>demo_world\<close>, used in the concrete runs below.\<close>

definition demo_query :: "error + observable \<times> string world" where
  "demo_query =
     invoke (demo_platform True) demo_service M_query [JStr ''SELECT * FROM example''] demo_world"


text \<open>
  The argument list each operation is meant to pass to the driver, where the service
  passes its own arguments on: the rest arguments as they are; the named parameters, one
  value for each (undefined for one left out); for \<^verbatim>\<open>insert\<close> and
  \<^verbatim>\<open>insertRelation\<close> both parameters when the first is truthy and the second alone
  when it is falsy; for \<^verbatim>\<open>run\<close> with a version string all three parameters. It says
  nothing of \<^verbatim>\<open>connect\<close> and \<^verbatim>\<open>ready\<close>, which take no arguments, and of
  \<^verbatim>\<open>run\<close> without a version string.
\<close>

definition spec_forwarded :: "operation \<Rightarrow> jsval list \<Rightarrow> jsval list option" where
  "spec_forwarded m args =
     (if m \<in> {M_authenticate, M_export, M_import, M_kill, M_let, M_live, M_query, M_queryRaw,
               M_rpc, M_signin, M_signup, M_subscribeLive, M_unSubscribeLive, M_unset}
      then Some args
      else if m \<in> {M_close, M_info, M_invalidate, M_ping, M_version} then Some []
      else if m \<in> {M_delete, M_select, M_use} then Some [arg args 0]
      else if m \<in> {M_create, M_merge, M_update, M_upsert} then Some [arg args 0, arg args 1]
      else if m = M_patch then Some [arg args 0, arg args 1, arg args 2]
      else if m = M_relate then Some [arg args 0, arg args 1, arg args 2, arg args 3]
      else if m \<in> {M_insert, M_insertRelation}
      then Some (if truthy (arg args 0) then [arg args 0, arg args 1] else [arg args 1])
      else if m = M_run \<and> typeof (arg args 1) = ''string''
      then Some [arg args 0, arg args 1, arg args 2]
      else None)"

text \<open>
  The driver call behind an invocation \<^verbatim>\<open>service.m(...args)\<close>: the argument list on
  which the service calls the driver operation \<open>m\<close>. For \<^verbatim>\<open>connect\<close> it is the URL
  object and the options of the stored configuration; for \<^verbatim>\<open>run\<close> without a version
  string it is the name and the third parameter; elsewhere it is \<open>spec_forwarded\<close>.
  There is none (\<open>None\<close>) for \<^verbatim>\<open>ready\<close>, which reads a property, and for
  \<^verbatim>\<open>connect\<close> when the URL constructor rejects the configured \<open>url\<close>.
\<close>

definition passed_args ::
  "'d platform \<Rightarrow> service \<Rightarrow> operation \<Rightarrow> jsval list \<Rightarrow> jsval list option" where
  "passed_args P svc m args =
     (if m = M_connect then
        (case url_parse P (url (config svc)) of
           None \<Rightarrow> None
         | Some u \<Rightarrow> Some [u, JObj (options (config svc))])
      else if m = M_run \<and> typeof (arg args 1) \<noteq> ''string''
      then Some [arg args 0, arg args 2]
      else spec_forwarded m args)"

text \<open>
  What the driver itself answers to an invocation in the store \<open>w\<close>: the first
  component of \<open>drv_call\<close> on the service's client for the operation and \<open>passed_args\<close>,
  or for \<^verbatim>\<open>ready\<close> the client's property. \<open>None\<close> where the driver is not
  reached.
\<close>

definition driver_promise ::
  "'d platform \<Rightarrow> service \<Rightarrow> operation \<Rightarrow> jsval list \<Rightarrow> 'd world \<Rightarrow> outcome option" where
  "driver_promise P svc m args w =
     (if m = M_ready then Some (drv_ready P (clients w (db svc)))
      else case passed_args P svc m args of
             None \<Rightarrow> None
           | Some a \<Rightarrow> Some (fst (drv_call P m a (clients w (db svc)))))"

text \<open>
  Child injectors that import nothing, one under each of the given parents in turn
  (a lazily loaded part of the application, a component's environment).
\<close>

fun create_children :: "nat list \<Rightarrow> 'd world \<Rightarrow> 'd world" where
  "create_children [] w = w"
| "create_children (p # ps) w = create_children ps (snd (create_injector (Some p) None w))"

text \<open>
  The demo application with two more injectors: a child of the root injector and a child
  of that child.
\<close>

definition demo_tree :: "string world" where
  "demo_tree = create_children [0, 1] demo_root"

text \<open>
  Two more root injectors: one registered with a \<open>url\<close> the host's parser rejects, one
  whose server cannot be reached.
\<close>

definition bad_root :: "string world" where
  "bad_root =
     snd (create_injector None (Some (forRoot bad_config)) (empty_world (demo_platform True)))"

definition unreachable_root :: "string world" where
  "unreachable_root =
     snd (create_injector None (Some (forRoot demo_config)) (empty_world (demo_platform False)))"

text \<open>
  Reading \<^verbatim>\<open>status()\<close>, closing the connection, and reading \<^verbatim>\<open>status()\<close> again.
\<close>

definition demo_closed :: "string world" where
  "demo_closed =
     snd (projr (close (demo_platform True) demo_service
            (snd (status (demo_platform True) demo_service demo_world))))"

section \<open>Properties\<close>

subsection \<open>Auxiliary facts\<close>

lemmas method_defs = authenticate_def close_def create_def delete_def export_def import_op_def
  info_def insert_op_def insertRelation_def invalidate_def kill_def let_op_def live_def merge_op_def
  patch_def ping_def query_def queryRaw_def ready_def relate_def rpc_def run_def select_def
  signin_def signup_def subscribeLive_def unsubscribeLive_def unset_def update_def upsert_def
  use_def version_def

lemmas demo_defs = demo_world_def demo_root_def demo_platform_def demo_call_def demo_url_def
  demo_config_def demo_service_def empty_world_def create_injector_def inject_service_def
  SurrealModule_new_def forRoot_def scope_of_def injector_at_def set_slot_def
  SurrealFactory_def SurrealService_new_def Surreal_new_def connect_def URL_new_def
  db_call_def db_ready_def from_result_def from_rx_def subscribe_def no_handlers_def
  full_observer_def arg_def Let_def

lemma db_call_threw:
  assumes "fst (drv_call P m a (clients w (db svc))) = Threw x"
  shows "from_result (db_call P svc m a w) = Inl (DriverError x)"
  using assms by (auto simp: db_call_def from_result_def Let_def split: prod.splits)

lemma db_call_returned:
  assumes "fst (drv_call P m a (clients w (db svc))) = r" and "\<forall>x. r \<noteq> Threw x"
  shows "from_result (db_call P svc m a w) =
           Inr (FromPromise r,
                w\<lparr>clients := (clients w)(db svc := snd (drv_call P m a (clients w (db svc)))),
                  calls := calls w @
                    [\<lparr>c_client = db svc, c_method = m, c_args = a, c_result = r\<rparr>]\<rparr>)"
  using assms
  by (cases r) (auto simp: db_call_def from_result_def from_rx_def Let_def split: prod.splits)

lemma invoke_is_db_call:
  assumes "m \<noteq> M_ready" and "passed_args P svc m args = Some a"
  shows "invoke P svc m args w = from_result (db_call P svc m a w)"
  using assms
  by (cases m)
     (auto simp: passed_args_def spec_forwarded_def method_defs connect_def URL_new_def Let_def
        split: option.splits if_splits)

lemma invoke_no_call:
  assumes "m \<noteq> M_ready" and "passed_args P svc m args = None"
  shows "invoke P svc m args w = Inl TypeError_InvalidURL \<and> m = M_connect
           \<and> url_parse P (url (config svc)) = None"
  using assms
  by (cases m)
     (auto simp: passed_args_def spec_forwarded_def connect_def URL_new_def Let_def
        split: option.splits if_splits)

lemma invoke_ready_threw:
  assumes "drv_ready P (clients w (db svc)) = Threw x"
  shows "invoke P svc M_ready args w = Inl (DriverError x)"
  using assms by (simp add: ready_def db_ready_def from_result_def)

lemma invoke_ready_returned:
  assumes "drv_ready P (clients w (db svc)) = r" and "\<forall>x. r \<noteq> Threw x"
  shows "invoke P svc M_ready args w = Inr (FromPromise r, w)"
  using assms by (cases r) (auto simp: ready_def db_ready_def from_result_def from_rx_def)

lemma subscribe_keeps_driver:
  "calls (subscribe obs ob w) = calls w"
  "clients (subscribe obs ob w) = clients w"
  "n_clients (subscribe obs ob w) = n_clients w"
  "injectors (subscribe obs ob w) = injectors w"
  by (cases obs; (rename_tac p, case_tac p; simp add: subscribe_def))+

lemma subscribe_full:
  "delivered (subscribe obs (full_observer k) w) = delivered w @ map (Pair k) (notifications obs)"
  "unhandled (subscribe obs (full_observer k) w) = unhandled w"
  by (cases obs; (rename_tac p, case_tac p; simp add: subscribe_def full_observer_def))+

lemma invoke_settled:
  assumes "driver_promise P svc m args w = Some r" and "\<forall>x. r \<noteq> Threw x"
  shows "\<exists>w'. invoke P svc m args w = Inr (FromPromise r, w')
           \<and> (m = M_ready \<and> w' = w \<or>
               (\<exists>a. passed_args P svc m args = Some a
                  \<and> clients w' = (clients w)(db svc := snd (drv_call P m a (clients w (db svc))))
                  \<and> calls w' = calls w @
                       [\<lparr>c_client = db svc, c_method = m, c_args = a, c_result = r\<rparr>]))"
proof (cases "m = M_ready")
  case True
  then show ?thesis
    using assms invoke_ready_returned [of P w svc r args]
    by (simp add: driver_promise_def)
next
  case False
  then obtain a where a: "passed_args P svc m args = Some a"
    and r: "fst (drv_call P m a (clients w (db svc))) = r"
    using assms(1) by (auto simp: driver_promise_def split: option.splits)
  show ?thesis
    using invoke_is_db_call [OF False a, of w] db_call_returned [OF r assms(2)] a False
    by simp
qed

subsection \<open>Streams of resolved and rejected calls\<close>

text \<open>
  Claim C1. For every operation of the service: when the driver, called on the service's
  client for this operation with the arguments the service passes (for \<^verbatim>\<open>ready\<close>: the
  client's property), answers with a promise that resolves to \<open>v\<close>, the invocation
  returns a stream, and that stream emits \<open>v\<close> once and then completes, and nothing else.
  A subscriber with all three handlers receives exactly \<open>Next v\<close> and \<open>Complete\<close>, and
  nothing is reported as unhandled. The invocation has made that one driver call: the
  client is in the state the driver left it in, and the log has grown by this call alone.
\<close>

theorem resolved_value_emitted_once:
  assumes "driver_promise P svc m args w = Some (Resolved v)"
  shows "\<exists>obs w'. invoke P svc m args w = Inr (obs, w')
           \<and> notifications obs = [Next v, Complete]
           \<and> delivered (subscribe obs (full_observer k) w')
               = delivered w' @ [(k, Next v), (k, Complete)]
           \<and> unhandled (subscribe obs (full_observer k) w') = unhandled w'
           \<and> (m = M_ready \<and> w' = w \<or>
               (\<exists>a. passed_args P svc m args = Some a
                  \<and> clients w' = (clients w)(db svc := snd (drv_call P m a (clients w (db svc))))
                  \<and> calls w' = calls w @
                       [\<lparr>c_client = db svc, c_method = m, c_args = a, c_result = Resolved v\<rparr>]))"
proof -
  obtain w' where inv: "invoke P svc m args w = Inr (FromPromise (Resolved v), w')"
    and eff: "m = M_ready \<and> w' = w \<or>
               (\<exists>a. passed_args P svc m args = Some a
                  \<and> clients w' = (clients w)(db svc := snd (drv_call P m a (clients w (db svc))))
                  \<and> calls w' = calls w @
                       [\<lparr>c_client = db svc, c_method = m, c_args = a, c_result = Resolved v\<rparr>])"
    using invoke_settled [OF assms] by auto
  show ?thesis
    using inv eff by (simp add: subscribe_full)
qed

theorem resolved_value_emitted_once_witness:
  "driver_promise (demo_platform True) demo_service M_select [JStr ''example''] demo_world
     = Some (Resolved (JArr [JStr ''example'']))
   \<and> invoke (demo_platform True) demo_service M_select [JStr ''example''] demo_world =
       Inr (FromPromise (Resolved (JArr [JStr ''example''])),
            snd (projr (invoke (demo_platform True) demo_service M_select [JStr ''example''] demo_world)))
   \<and> notifications (FromPromise (Resolved (JArr [JStr ''example''])))
       = [Next (JArr [JStr ''example'']), Complete]
   \<and> delivered (subscribe (FromPromise (Resolved (JArr [JStr ''example'']))) (full_observer 7)
        (snd (projr (invoke (demo_platform True) demo_service M_select [JStr ''example''] demo_world))))
       = [(7, Next (JArr [JStr ''example''])), (7, Complete)]"
proof -
  let ?r = "invoke (demo_platform True) demo_service M_select [JStr ''example''] demo_world"
  let ?o = "FromPromise (Resolved (JArr [JStr ''example'']))"
  have h: "driver_promise (demo_platform True) demo_service M_select [JStr ''example''] demo_world
     = Some (Resolved (JArr [JStr ''example'']))"
    by (simp add: driver_promise_def passed_args_def spec_forwarded_def demo_defs)
  obtain obs w' where inv: "?r = Inr (obs, w')"
    and n: "notifications obs = [Next (JArr [JStr ''example'']), Complete]"
    and d: "delivered (subscribe obs (full_observer 7) w')
               = delivered w' @ [(7, Next (JArr [JStr ''example''])), (7, Complete)]"
    using resolved_value_emitted_once [OF h, of 7] by blast
  have o: "obs = ?o"
    using n by (cases obs; rename_tac p; case_tac p) simp_all
  have w: "w' = snd (projr ?r)"
    using inv by simp
  have e: "delivered (snd (projr ?r)) = []"
    by (simp add: select_def demo_defs)
  show ?thesis
    using h inv n d e unfolding o w by simp
qed

text \<open>
  Claim C2. For every operation of the service: when the driver, called on the service's
  client for this operation with the arguments the service passes, answers with a promise
  that rejects with \<open>e\<close>, the invocation returns a stream, and that stream emits the
  error \<open>e\<close> itself, once, and no value. Nothing is caught (the subscriber's error
  handler receives \<open>e\<close>), nothing is retried (the invocation has made the one driver
  call) and the reason is the driver's own.
\<close>

theorem rejection_emitted_as_error:
  assumes "driver_promise P svc m args w = Some (Rejected e)"
  shows "\<exists>obs w'. invoke P svc m args w = Inr (obs, w')
           \<and> notifications obs = [Error e]
           \<and> delivered (subscribe obs (full_observer k) w') = delivered w' @ [(k, Error e)]
           \<and> unhandled (subscribe obs (full_observer k) w') = unhandled w'
           \<and> (m = M_ready \<and> w' = w \<or>
               (\<exists>a. passed_args P svc m args = Some a
                  \<and> clients w' = (clients w)(db svc := snd (drv_call P m a (clients w (db svc))))
                  \<and> calls w' = calls w @
                       [\<lparr>c_client = db svc, c_method = m, c_args = a, c_result = Rejected e\<rparr>]))"
proof -
  obtain w' where inv: "invoke P svc m args w = Inr (FromPromise (Rejected e), w')"
    and eff: "m = M_ready \<and> w' = w \<or>
               (\<exists>a. passed_args P svc m args = Some a
                  \<and> clients w' = (clients w)(db svc := snd (drv_call P m a (clients w (db svc))))
                  \<and> calls w' = calls w @
                       [\<lparr>c_client = db svc, c_method = m, c_args = a, c_result = Rejected e\<rparr>])"
    using invoke_settled [OF assms] by auto
  show ?thesis
    using inv eff by (simp add: subscribe_full)
qed

theorem rejection_emitted_as_error_witness:
  "driver_promise (demo_platform True) demo_service M_signin
       [JObj [(''email'', JStr ''bad@x.com'')]] demo_world
     = Some (Rejected (JStr ''bad credentials''))
   \<and> invoke (demo_platform True) demo_service M_signin [JObj [(''email'', JStr ''bad@x.com'')]] demo_world =
     Inr (FromPromise (Rejected (JStr ''bad credentials'')),
          snd (projr (invoke (demo_platform True) demo_service M_signin
                 [JObj [(''email'', JStr ''bad@x.com'')]] demo_world)))
   \<and> notifications (FromPromise (Rejected (JStr ''bad credentials'')))
       = [Error (JStr ''bad credentials'')]
   \<and> delivered (subscribe (FromPromise (Rejected (JStr ''bad credentials''))) (full_observer 7)
        (snd (projr (invoke (demo_platform True) demo_service M_signin
                 [JObj [(''email'', JStr ''bad@x.com'')]] demo_world))))
       = [(7, Error (JStr ''bad credentials''))]"
proof -
  let ?r = "invoke (demo_platform True) demo_service M_signin
              [JObj [(''email'', JStr ''bad@x.com'')]] demo_world"
  let ?o = "FromPromise (Rejected (JStr ''bad credentials''))"
  have h: "driver_promise (demo_platform True) demo_service M_signin
       [JObj [(''email'', JStr ''bad@x.com'')]] demo_world
     = Some (Rejected (JStr ''bad credentials''))"
    by (simp add: driver_promise_def passed_args_def spec_forwarded_def demo_defs)
  obtain obs w' where inv: "?r = Inr (obs, w')"
    and n: "notifications obs = [Error (JStr ''bad credentials'')]"
    and d: "delivered (subscribe obs (full_observer 7) w')
               = delivered w' @ [(7, Error (JStr ''bad credentials''))]"
    using rejection_emitted_as_error [OF h, of 7] by blast
  have o: "obs = ?o"
    using n by (cases obs; rename_tac p; case_tac p) simp_all
  have w: "w' = snd (projr ?r)"
    using inv by simp
  have e: "delivered (snd (projr ?r)) = []"
    by (simp add: signin_def demo_defs)
  show ?thesis
    using h inv n d e unfolding o w by simp
qed

subsection \<open>When the driver is called\<close>

text \<open>
  Claim C6, as stated, fails. After the service has been constructed the log holds the
  one \<^verbatim>\<open>connect\<close> call. Invoking \<^verbatim>\<open>query\<close> adds the driver call at once, with no
  subscription made; two subscriptions to the returned stream add no further call.
\<close>

theorem driver_called_before_subscription_counterexample:
  "map c_method (calls demo_world) = [M_connect]
   \<and> map c_method (calls (snd (projr demo_query))) = [M_connect, M_query]
   \<and> map c_method (calls
        (subscribe (fst (projr demo_query)) (full_observer 2)
          (subscribe (fst (projr demo_query)) (full_observer 1) (snd (projr demo_query)))))
       = [M_connect, M_query]"
  by (simp add: demo_query_def query_def demo_defs subscribe_keeps_driver)

lemma invoke_effect:
  assumes "invoke P svc m args w = Inr (obs, w')"
  shows "m = M_ready \<and> w' = w \<and> obs = FromPromise (drv_ready P (clients w (db svc)))
          \<or> (\<exists>a. passed_args P svc m args = Some a
                \<and> obs = FromPromise (fst (drv_call P m a (clients w (db svc))))
                \<and> w' = w\<lparr>clients := (clients w)(db svc := snd (drv_call P m a (clients w (db svc)))),
                         calls := calls w @
                           [\<lparr>c_client = db svc, c_method = m, c_args = a,
                             c_result = fst (drv_call P m a (clients w (db svc)))\<rparr>]\<rparr>)"
proof (cases "m = M_ready")
  case True
  show ?thesis
  proof (cases "\<exists>x. drv_ready P (clients w (db svc)) = Threw x")
    case True
    then obtain x where "drv_ready P (clients w (db svc)) = Threw x" by blast
    from invoke_ready_threw [OF this, of args] assms \<open>m = M_ready\<close>
    show ?thesis by simp
  next
    case False
    then have "invoke P svc M_ready args w
                 = Inr (FromPromise (drv_ready P (clients w (db svc))), w)"
      by (intro invoke_ready_returned) auto
    with assms \<open>m = M_ready\<close> show ?thesis by simp
  qed
next
  case False
  show ?thesis
  proof (cases "passed_args P svc m args")
    case None
    then show ?thesis using invoke_no_call [OF False None, of w] assms by simp
  next
    case (Some a)
    note inv = invoke_is_db_call [OF False Some, of w]
    show ?thesis
    proof (cases "\<exists>x. fst (drv_call P m a (clients w (db svc))) = Threw x")
      case True
      then show ?thesis using inv assms by (auto simp: db_call_threw)
    next
      case False
      then show ?thesis
        using inv assms Some db_call_returned [of P m a w svc] by auto
    qed
  qed
qed

text \<open>
  Claim C6, amended. For every operation, an invocation that returns a stream has made
  its driver call once, at the invocation: the store it returns is the store before, with
  the service's client changed as the driver changed it and with one entry added to the
  log, which is this operation, on this client, with the arguments the service passes and
  with the driver's answer; the stream is \<^verbatim>\<open>from\<close> of that answer. (For \<^verbatim>\<open>ready\<close>
  the store is unchanged and the stream is \<^verbatim>\<open>from\<close> of the client's property as read
  at the invocation.) A subscription to the stream, in any later store and with any
  handlers, calls no driver operation and changes no client, and every subscriber with
  all handlers receives the notifications of that one promise.
\<close>

theorem driver_called_once_at_invocation:
  assumes "invoke P svc m args w = Inr (obs, w')"
  shows "(m = M_ready \<and> w' = w \<and> obs = FromPromise (drv_ready P (clients w (db svc)))
          \<or> (\<exists>a. passed_args P svc m args = Some a
                \<and> obs = FromPromise (fst (drv_call P m a (clients w (db svc))))
                \<and> w' = w\<lparr>clients := (clients w)(db svc := snd (drv_call P m a (clients w (db svc)))),
                         calls := calls w @
                           [\<lparr>c_client = db svc, c_method = m, c_args = a,
                             c_result = fst (drv_call P m a (clients w (db svc)))\<rparr>]\<rparr>))
       \<and> calls (subscribe obs ob wx) = calls wx
       \<and> clients (subscribe obs ob wx) = clients wx
       \<and> delivered (subscribe obs (full_observer k) wx)
           = delivered wx @ map (Pair k) (notifications obs)"
  using invoke_effect [OF assms]
  by (simp add: subscribe_keeps_driver subscribe_full)

theorem driver_called_once_at_invocation_witness:
  "demo_query = Inr (FromPromise (Resolved (JArr [JStr ''SELECT * FROM example''])), snd (projr demo_query))
   \<and> passed_args (demo_platform True) demo_service M_query [JStr ''SELECT * FROM example'']
       = Some [JStr ''SELECT * FROM example'']
   \<and> calls (snd (projr demo_query)) = calls demo_world @
        [\<lparr>c_client = 0, c_method = M_query, c_args = [JStr ''SELECT * FROM example''],
          c_result = Resolved (JArr [JStr ''SELECT * FROM example''])\<rparr>]
   \<and> delivered (subscribe (FromPromise (Resolved (JArr [JStr ''SELECT * FROM example''])))
        (full_observer 2)
        (subscribe (FromPromise (Resolved (JArr [JStr ''SELECT * FROM example''])))
           (full_observer 1) (snd (projr demo_query))))
     = [(1, Next (JArr [JStr ''SELECT * FROM example''])), (1, Complete),
        (2, Next (JArr [JStr ''SELECT * FROM example''])), (2, Complete)]"
proof -
  let ?o = "FromPromise (Resolved (JArr [JStr ''SELECT * FROM example'']))"
  let ?w = "snd (projr demo_query)"
  let ?P = "demo_platform True"
  have h1: "invoke ?P demo_service M_query [JStr ''SELECT * FROM example''] demo_world
              = Inr (?o, ?w)"
    by (simp add: demo_query_def query_def demo_defs)
  have h2: "passed_args ?P demo_service M_query [JStr ''SELECT * FROM example'']
       = Some [JStr ''SELECT * FROM example'']"
    by (simp add: passed_args_def spec_forwarded_def)
  have h3: "delivered ?w = []"
    by (simp add: demo_query_def query_def demo_defs)
  have h4: "fst (drv_call ?P M_query [JStr ''SELECT * FROM example'']
              (clients demo_world (db demo_service)))
            = Resolved (JArr [JStr ''SELECT * FROM example''])"
    by (simp add: demo_defs)
  note t = driver_called_once_at_invocation [OF h1]
  have a: "calls ?w = calls demo_world @
        [\<lparr>c_client = 0, c_method = M_query, c_args = [JStr ''SELECT * FROM example''],
          c_result = Resolved (JArr [JStr ''SELECT * FROM example''])\<rparr>]"
    using t [THEN conjunct1] h2 h4 by (auto simp: demo_service_def)
  have b: "delivered (subscribe ?o (full_observer 1) ?w)
      = [(1, Next (JArr [JStr ''SELECT * FROM example''])), (1, Complete)]"
    using t [where k = 1 and wx = ?w, THEN conjunct2, THEN conjunct2, THEN conjunct2] h3
    by simp
  have c: "delivered (subscribe ?o (full_observer 2) (subscribe ?o (full_observer 1) ?w))
      = [(1, Next (JArr [JStr ''SELECT * FROM example''])), (1, Complete),
         (2, Next (JArr [JStr ''SELECT * FROM example''])), (2, Complete)]"
    using t [where k = 2 and wx = "subscribe ?o (full_observer 1) ?w",
             THEN conjunct2, THEN conjunct2, THEN conjunct2] b
    by simp
  have d: "demo_query = Inr (?o, ?w)"
    using h1 by (simp only: demo_query_def)
  show ?thesis using a c d h2 by blast
qed

subsection \<open>The arguments the driver receives\<close>


lemma unsubscribeLive_earlier_args:
  assumes "unsubscribeLive_earlier P svc queryUuid w = Inr (obs, w')"
  shows "calls w' = calls w @
     [\<lparr>c_client = db svc, c_method = M_unSubscribeLive, c_args = [queryUuid, noop_callback],
       c_result = fst (drv_call P M_unSubscribeLive [queryUuid, noop_callback]
                        (clients w (db svc)))\<rparr>]"
  using assms
  by (auto simp: unsubscribeLive_earlier_def db_call_def from_result_def Let_def
        split: prod.splits outcome.splits)



subsection \<open>Registration and construction, step by step\<close>

lemma register_fresh:
  assumes "create_injector parent (Some (forRoot cfg)) w0 = (Inr i, w1)"
  shows "i = length (injectors w0)"
    and "injector_at w1 i = Some \<lparr>inj_ancestors = (case parent of None \<Rightarrow> [] | Some p \<Rightarrow> scope_of w0 p),
            inj_module = True, inj_providers = providers (forRoot cfg), inj_service = NotYet\<rparr>"
    and "w1 = w0\<lparr>injectors := injectors w0 @ [\<lparr>inj_ancestors = (case parent of None \<Rightarrow> [] | Some p \<Rightarrow> scope_of w0 p),
            inj_module = True, inj_providers = providers (forRoot cfg), inj_service = NotYet\<rparr>]\<rparr>"
  using assms
  by (auto simp: create_injector_def Let_def injector_at_def split: sum.splits)

lemma register_resolves:
  assumes "create_injector parent (Some (forRoot cfg)) w0 = (Inr i, w1)"
  shows "resolve_service_owner w1 (scope_of w1 i) = Some i"
    and "resolve_config w1 (scope_of w1 i) = Some cfg"
  using register_fresh [OF assms]
  by (auto simp: scope_of_def forRoot_def)

lemma connect_eq:
  assumes "url_parse P (url (config svc)) = Some u"
  shows "connect P svc w = from_result (db_call P svc M_connect [u, JObj (options (config svc))] w)"
  using assms by (simp add: connect_def URL_new_def Let_def)

lemma new_service_ok:
  assumes "SurrealService_new P (Some cfg) w = (Inr svc, w')"
  shows "svc = \<lparr>db = n_clients w, config = cfg\<rparr>"
    and "\<exists>u. url_parse P (url cfg) = Some u \<and>
           calls w' = calls w @ [\<lparr>c_client = n_clients w, c_method = M_connect,
              c_args = [u, JObj (options cfg)],
              c_result = fst (drv_call P M_connect [u, JObj (options cfg)] (drv_new P))\<rparr>]"
    and "n_clients w' = Suc (n_clients w)"
    and "injectors w' = injectors w"
  using assms
  by (auto simp: SurrealService_new_def Surreal_new_def Let_def connect_def URL_new_def
        db_call_def from_result_def from_rx_def subscribe_keeps_driver
      split: option.splits sum.splits prod.splits outcome.splits)

lemma new_service_store:
  "n_clients (snd (SurrealService_new P (Some cfg) w)) = Suc (n_clients w)"
  "injectors (snd (SurrealService_new P (Some cfg) w)) = injectors w"
  by (auto simp: SurrealService_new_def Surreal_new_def Let_def connect_def URL_new_def
        db_call_def from_result_def from_rx_def subscribe_keeps_driver
      split: option.splits sum.splits prod.splits outcome.splits)

lemma set_slot_fields:
  "calls (set_slot i s w) = calls w"
  "clients (set_slot i s w) = clients w"
  "n_clients (set_slot i s w) = n_clients w"
  "unhandled (set_slot i s w) = unhandled w"
  "delivered (set_slot i s w) = delivered w"
  "memo (set_slot i s w) = memo w"
  by (simp_all add: set_slot_def split: option.splits)

lemma set_slot_at:
  assumes "injector_at w i = Some node"
  shows "injector_at (set_slot i s w) i = Some (node\<lparr>inj_service := s\<rparr>)"
    and "injectors (set_slot i s w) = (injectors w)[i := node\<lparr>inj_service := s\<rparr>]"
  using assms by (auto simp: set_slot_def injector_at_def split: if_splits)

lemma inject_fresh:
  assumes reg: "create_injector parent (Some (forRoot cfg)) w0 = (Inr i, w1)"
  shows "inject_service P i w1 =
     (case SurrealService_new P (Some cfg) (set_slot i Circular w1) of
        (Inl e, w') \<Rightarrow> (Inl e, w')
      | (Inr svc, w') \<Rightarrow> (Inr svc, set_slot i (Instance svc) w'))"
  using register_fresh(2) [OF reg] register_resolves [OF reg]
  by (simp add: inject_service_def SurrealFactory_def)

subsection \<open>Construction of the service\<close>

text \<open>
  Claim C5. When the module has been registered with configuration \<open>cfg\<close> and the
  service is then constructed, by its first injection, the construction makes one
  driver call and no other: \<^verbatim>\<open>connect\<close> on the service's own fresh client, with the
  URL object of the registered \<open>url\<close> and the remaining options of \<open>cfg\<close>. The call is
  in the log when the injection returns, before application code holds the service.
\<close>

theorem construction_connects_once:
  assumes "create_injector parent (Some (forRoot cfg)) w0 = (Inr i, w1)"
    and "inject_service P i w1 = (Inr svc, w2)"
  shows "svc = \<lparr>db = n_clients w1, config = cfg\<rparr>
       \<and> calls w1 = calls w0
       \<and> (\<exists>u. url_parse P (url cfg) = Some u
            \<and> calls w2 = calls w1 @
                 [\<lparr>c_client = db svc, c_method = M_connect, c_args = [u, JObj (options cfg)],
                   c_result = fst (drv_call P M_connect [u, JObj (options cfg)] (drv_new P))\<rparr>])"
proof -
  obtain w' where new: "SurrealService_new P (Some cfg) (set_slot i Circular w1) = (Inr svc, w')"
    and w2: "w2 = set_slot i (Instance svc) w'"
    using assms(2) unfolding inject_fresh [OF assms(1)]
    by (auto split: prod.splits sum.splits)
  have "calls w1 = calls w0"
    using register_fresh(3) [OF assms(1)] by simp
  then show ?thesis
    using new_service_ok(1,2) [OF new] w2 by (auto simp: set_slot_fields)
qed

theorem construction_connects_once_witness:
  "create_injector None (Some (forRoot demo_config)) (empty_world (demo_platform True))
     = (Inr 0, demo_root)
   \<and> inject_service (demo_platform True) 0 demo_root = (Inr demo_service, demo_world)
   \<and> calls demo_root = []
   \<and> calls demo_world =
       [\<lparr>c_client = 0, c_method = M_connect,
         c_args = [JObj [(''href'', JStr ''http://localhost:8000/rpc'')],
                   JObj [(''namespace'', JStr ''test''), (''database'', JStr ''test'')]],
         c_result = Resolved (JBool True)\<rparr>]"
proof -
  have h1: "create_injector None (Some (forRoot demo_config)) (empty_world (demo_platform True))
              = (Inr 0, demo_root)"
    by (simp add: demo_defs)
  have h2: "inject_service (demo_platform True) 0 demo_root = (Inr demo_service, demo_world)"
    by (simp add: demo_defs)
  have h3: "calls demo_root = []"
    by (simp add: demo_defs)
  have h4: "url_parse (demo_platform True) (url demo_config)
              = Some (JObj [(''href'', JStr ''http://localhost:8000/rpc'')])"
    by (simp add: demo_defs)
  have h5: "fst (drv_call (demo_platform True) M_connect
              [JObj [(''href'', JStr ''http://localhost:8000/rpc'')], JObj (options demo_config)]
              (drv_new (demo_platform True))) = Resolved (JBool True)"
    by (simp add: demo_defs)
  have h6: "options demo_config = [(''namespace'', JStr ''test''), (''database'', JStr ''test'')]"
    by (simp add: demo_config_def)
  from construction_connects_once [OF h1 h2] h3 h4 h5 h6
  have "calls demo_world =
       [\<lparr>c_client = 0, c_method = M_connect,
         c_args = [JObj [(''href'', JStr ''http://localhost:8000/rpc'')],
                   JObj [(''namespace'', JStr ''test''), (''database'', JStr ''test'')]],
         c_result = Resolved (JBool True)\<rparr>]"
    by (auto simp: demo_service_def)
  with h1 h2 h3 show ?thesis by blast
qed

lemma invoke_threw:
  assumes "driver_promise P svc m args w = Some (Threw x)"
  shows "invoke P svc m args w = Inl (DriverError x)"
proof (cases "m = M_ready")
  case True
  then have "drv_ready P (clients w (db svc)) = Threw x"
    using assms by (simp add: driver_promise_def)
  from invoke_ready_threw [OF this, of args] True show ?thesis by simp
next
  case False
  then obtain a where a: "passed_args P svc m args = Some a"
    and r: "fst (drv_call P m a (clients w (db svc))) = Threw x"
    using assms by (auto simp: driver_promise_def split: option.splits)
  show ?thesis
    using invoke_is_db_call [OF False a, of w] db_call_threw [OF r] by simp
qed

lemma invoke_unreached:
  assumes "driver_promise P svc m args w = None"
  shows "invoke P svc m args w = Inl TypeError_InvalidURL \<and> m = M_connect
           \<and> url_parse P (url (config svc)) = None"
proof -
  have m: "m \<noteq> M_ready" and pa: "passed_args P svc m args = None"
    using assms by (auto simp: driver_promise_def split: if_splits option.splits)
  show ?thesis by (rule invoke_no_call [OF m pa])
qed

lemma driver_reached:
  assumes "url_parse P (url (config svc)) = Some u"
  shows "\<exists>r. driver_promise P svc m args w = Some r"
  using assms invoke_unreached [of P svc m args w]
  by (cases "driver_promise P svc m args w") auto

text \<open>
  Claim C10. The constructor subscribes to its \<^verbatim>\<open>connect()\<close> stream with no handler.
  When the driver rejects that first \<^verbatim>\<open>connect\<close> with \<open>e\<close>, the construction still
  returns the service object; \<open>e\<close> is reported to the host as an unhandled error and
  reaches no subscriber; and every operation of the service can be invoked afterwards:
  the invocation returns a stream, unless the driver itself throws in the call.
\<close>

theorem initial_connect_rejection_unhandled:
  assumes "url_parse P (url cfg) = Some u"
    and "fst (drv_call P M_connect [u, JObj (options cfg)] (drv_new P)) = Rejected e"
  shows "fst (SurrealService_new P (Some cfg) w) = Inr \<lparr>db = n_clients w, config = cfg\<rparr>
       \<and> unhandled (snd (SurrealService_new P (Some cfg) w)) = unhandled w @ [e]
       \<and> delivered (snd (SurrealService_new P (Some cfg) w)) = delivered w
       \<and> ((\<exists>obs w'. invoke P \<lparr>db = n_clients w, config = cfg\<rparr> m args wx = Inr (obs, w'))
          \<or> (\<exists>x. invoke P \<lparr>db = n_clients w, config = cfg\<rparr> m args wx = Inl (DriverError x)
                \<and> driver_promise P \<lparr>db = n_clients w, config = cfg\<rparr> m args wx = Some (Threw x)))"
proof -
  let ?svc = "\<lparr>db = n_clients w, config = cfg\<rparr>"
  obtain r where r: "driver_promise P ?svc m args wx = Some r"
    using driver_reached [of P ?svc u m args wx] assms(1) by auto
  have "(\<exists>obs w'. invoke P ?svc m args wx = Inr (obs, w'))
          \<or> (\<exists>x. invoke P ?svc m args wx = Inl (DriverError x)
                \<and> driver_promise P ?svc m args wx = Some (Threw x))"
  proof (cases "\<exists>x. r = Threw x")
    case True
    then show ?thesis using invoke_threw r by blast
  next
    case False
    then show ?thesis using invoke_settled [OF r] by blast
  qed
  moreover have "fst (SurrealService_new P (Some cfg) w) = Inr ?svc
       \<and> unhandled (snd (SurrealService_new P (Some cfg) w)) = unhandled w @ [e]
       \<and> delivered (snd (SurrealService_new P (Some cfg) w)) = delivered w"
    using assms
    by (auto simp: SurrealService_new_def Surreal_new_def Let_def connect_def URL_new_def
        db_call_def from_result_def from_rx_def subscribe_def no_handlers_def split: prod.splits)
  ultimately show ?thesis by blast
qed

theorem initial_connect_rejection_unhandled_witness:
  "url_parse (demo_platform False) (url demo_config)
     = Some (JObj [(''href'', JStr ''http://localhost:8000/rpc'')])
   \<and> fst (drv_call (demo_platform False) M_connect
            [JObj [(''href'', JStr ''http://localhost:8000/rpc'')], JObj (options demo_config)]
            (drv_new (demo_platform False))) = Rejected (JStr ''unreachable'')
   \<and> fst (SurrealService_new (demo_platform False) (Some demo_config) unreachable_root)
       = Inr demo_service
   \<and> unhandled (snd (SurrealService_new (demo_platform False) (Some demo_config) unreachable_root))
       = [JStr ''unreachable'']
   \<and> delivered (snd (SurrealService_new (demo_platform False) (Some demo_config) unreachable_root))
       = []"
proof -
  have h1: "url_parse (demo_platform False) (url demo_config)
     = Some (JObj [(''href'', JStr ''http://localhost:8000/rpc'')])"
    by (simp add: demo_defs)
  have h2: "fst (drv_call (demo_platform False) M_connect
            [JObj [(''href'', JStr ''http://localhost:8000/rpc'')], JObj (options demo_config)]
            (drv_new (demo_platform False))) = Rejected (JStr ''unreachable'')"
    by (simp add: demo_defs)
  have h3: "n_clients unreachable_root = 0" "unhandled unreachable_root = []"
    "delivered unreachable_root = []"
    by (simp_all add: unreachable_root_def demo_defs)
  note t = initial_connect_rejection_unhandled [OF h1 h2, of unreachable_root M_ping "[]"
         unreachable_root]
  show ?thesis
    using h1 h2 h3 t [THEN conjunct1] t [THEN conjunct2, THEN conjunct1]
      t [THEN conjunct2, THEN conjunct2, THEN conjunct1]
    by (simp add: demo_service_def)
qed

subsection \<open>Registration\<close>

text \<open>
  Claim C3. When an injector in the scope of \<open>p\<close> (\<open>p\<close> itself or one that encloses it)
  already holds the module, registering the module again in a new injector under \<open>p\<close>
  throws the duplicate-registration error, and the store is as it was: no injector is
  added, no service and no client is constructed.
\<close>

theorem second_registration_throws:
  assumes "resolve_module w (scope_of w p) = Some q"
  shows "create_injector (Some p) (Some (forRoot cfg)) w =
           (Inl (DuplicateRegistration
              ''SurrealModule is already loaded. Import it in the AppModule or AppConfig only''), w)
       \<and> n_clients (snd (create_injector (Some p) (Some (forRoot cfg)) w)) = n_clients w"
  using assms by (simp add: create_injector_def SurrealModule_new_def Let_def)

theorem second_registration_throws_witness:
  "resolve_module demo_world (scope_of demo_world 0) = Some 0
   \<and> n_clients demo_world = 1
   \<and> create_injector (Some 0) (Some (forRoot demo_config)) demo_world =
       (Inl (DuplicateRegistration
          ''SurrealModule is already loaded. Import it in the AppModule or AppConfig only''),
        demo_world)
   \<and> n_clients (snd (create_injector (Some 0) (Some (forRoot demo_config)) demo_world)) = 1"
proof -
  have h1: "resolve_module demo_world (scope_of demo_world 0) = Some 0"
    by (simp add: demo_defs)
  have h2: "n_clients demo_world = 1"
    by (simp add: demo_defs)
  show ?thesis
    using h1 h2 second_registration_throws [OF h1, of demo_config] by simp
qed

subsection \<open>The accessors\<close>

lemma computed_read_again:
  assumes "computed_read k f w = (v, w1)"
    and "memo w2 k = memo w1 k"
  shows "fst (computed_read k g w2) = v"
  using assms by (auto simp: computed_read_def split: option.splits)

lemma status_read_again:
  assumes "status P svc w = (v, w1)"
    and "memo w2 (db svc, A_status) = memo w1 (db svc, A_status)"
  shows "fst (status P svc w2) = v"
  using assms unfolding status_def by (rule computed_read_again)

text \<open>
  Claim C8 does not hold of the code. With the connection up, \<^verbatim>\<open>status()\<close> reads
  \<open>connected\<close>. After \<^verbatim>\<open>close()\<close> the driver's status is \<open>disconnected\<close>, and
  \<^verbatim>\<open>status()\<close> still reads \<open>connected\<close>: the value of the first read.
\<close>

theorem status_read_after_close_is_stale:
  "fst (status (demo_platform True) demo_service demo_world) = JStr ''connected''
   \<and> drv_status (demo_platform True) (clients demo_closed (db demo_service)) = JStr ''disconnected''
   \<and> fst (status (demo_platform True) demo_service demo_closed) = JStr ''connected''"
  by (simp add: demo_closed_def status_def computed_read_def close_def demo_defs)

subsection \<open>One client for the scope\<close>

lemma child_store:
  "snd (create_injector (Some p) None w) =
     w\<lparr>injectors := injectors w @
        [\<lparr>inj_ancestors = scope_of w p, inj_module = False, inj_providers = [],
          inj_service = NotYet\<rparr>]\<rparr>"
  by (simp add: create_injector_def Let_def)

lemma children_keep:
  "n_clients (create_children ps w) = n_clients w"
  "calls (create_children ps w) = calls w"
  "i < length (injectors w) \<Longrightarrow> injector_at (create_children ps w) i = injector_at w i"
proof (induction ps arbitrary: w)
  case Nil
  {
    case 1 show ?case by simp
  next
    case 2 show ?case by simp
  next
    case 3 show ?case by simp
  }
next
  case (Cons p ps)
  {
    case 1 show ?case by (simp add: Cons.IH(1) child_store)
  next
    case 2 show ?case by (simp add: Cons.IH(2) child_store)
  next
    case 3
    have "i < length (injectors (snd (create_injector (Some p) None w)))"
      using 3 by (simp add: child_store)
    from Cons.IH(3) [OF this] 3 show ?case
      by (simp add: child_store injector_at_def nth_append)
  }
qed

lemma skeleton_at:
  assumes "map (\<lambda>n. (inj_ancestors n, inj_providers n)) (injectors w2)
             = map (\<lambda>n. (inj_ancestors n, inj_providers n)) (injectors w)"
  shows "(case injector_at w2 k of None \<Rightarrow> None | Some n \<Rightarrow> Some (inj_ancestors n, inj_providers n))
       = (case injector_at w k of None \<Rightarrow> None | Some n \<Rightarrow> Some (inj_ancestors n, inj_providers n))"
proof -
  have len: "length (injectors w2) = length (injectors w)"
    using assms by (rule map_eq_imp_length_eq)
  show ?thesis
  proof (cases "k < length (injectors w)")
    case True
    have "map (\<lambda>n. (inj_ancestors n, inj_providers n)) (injectors w2) ! k
            = map (\<lambda>n. (inj_ancestors n, inj_providers n)) (injectors w) ! k"
      using assms by simp
    then show ?thesis using True len by (simp add: injector_at_def)
  next
    case False
    then show ?thesis using len by (simp add: injector_at_def)
  qed
qed

lemma skeleton_scope:
  assumes "map (\<lambda>n. (inj_ancestors n, inj_providers n)) (injectors w2)
             = map (\<lambda>n. (inj_ancestors n, inj_providers n)) (injectors w)"
  shows "scope_of w2 j = scope_of w j"
  using skeleton_at [OF assms, of j]
  by (auto simp: scope_of_def split: option.splits)

lemma skeleton_owner:
  assumes "map (\<lambda>n. (inj_ancestors n, inj_providers n)) (injectors w2)
             = map (\<lambda>n. (inj_ancestors n, inj_providers n)) (injectors w)"
  shows "resolve_service_owner w2 js = resolve_service_owner w js"
proof (induction js)
  case Nil
  show ?case by simp
next
  case (Cons k js)
  show ?case
    using skeleton_at [OF assms, of k] Cons.IH
    by (auto split: option.splits)
qed

lemma skeleton_set_slot:
  "map (\<lambda>n. (inj_ancestors n, inj_providers n)) (injectors (set_slot i s w))
     = map (\<lambda>n. (inj_ancestors n, inj_providers n)) (injectors w)"
  by (auto simp: set_slot_def injector_at_def map_update list_update_same_conv
        split: option.splits if_splits)

lemma inject_cached:
  assumes "resolve_service_owner w (scope_of w j) = Some i"
    and "injector_at w i = Some node"
    and "inj_service node = Instance svc"
  shows "inject_service P j w = (Inr svc, w)"
  using assms by (simp add: inject_service_def)

lemma inject_circular:
  assumes "resolve_service_owner w (scope_of w j) = Some i"
    and "injector_at w i = Some node"
    and "inj_service node = Circular"
  shows "inject_service P j w = (Inl CyclicDependencyError, w)"
  using assms by (simp add: inject_service_def)

lemma inject_all_cached:
  assumes "\<forall>j\<in>set js. resolve_service_owner w (scope_of w j) = Some i"
    and "injector_at w i = Some node"
    and "inj_service node = Instance svc"
  shows "inject_all P js w = (replicate (length js) (Inr svc), w)"
  using assms(1)
  by (induction js) (simp_all add: inject_cached [OF _ assms(2,3)])

lemma inject_all_circular:
  assumes "\<forall>j\<in>set js. resolve_service_owner w (scope_of w j) = Some i"
    and "injector_at w i = Some node"
    and "inj_service node = Circular"
  shows "inject_all P js w = (replicate (length js) (Inl CyclicDependencyError), w)"
  using assms(1)
  by (induction js) (simp_all add: inject_circular [OF _ assms(2,3)])

lemma inject_first:
  assumes at: "injector_at w i = Some node"
    and prov: "inj_providers node = providers (forRoot cfg)"
    and slot: "inj_service node = NotYet"
    and own: "resolve_service_owner w (scope_of w j) = Some i"
  shows "\<exists>r w2 node2. inject_service P j w = (r, w2)
           \<and> n_clients w2 = Suc (n_clients w)
           \<and> map (\<lambda>n. (inj_ancestors n, inj_providers n)) (injectors w2)
               = map (\<lambda>n. (inj_ancestors n, inj_providers n)) (injectors w)
           \<and> injector_at w2 i = Some node2
           \<and> r = fst (SurrealService_new P (Some cfg) (set_slot i Circular w))
           \<and> (r = Inr \<lparr>db = n_clients w, config = cfg\<rparr>
                  \<and> inj_service node2 = Instance \<lparr>db = n_clients w, config = cfg\<rparr>
                \<or> (\<exists>e. r = Inl e) \<and> inj_service node2 = Circular)"
proof -
  let ?wc = "set_slot i Circular w"
  let ?new = "SurrealService_new P (Some cfg) ?wc"
  have cfg: "resolve_config w (scope_of w i) = Some cfg"
    using at prov by (simp add: scope_of_def forRoot_def)
  have inj: "inject_service P j w =
      (case ?new of (Inl e, w') \<Rightarrow> (Inl e, w') | (Inr svc, w') \<Rightarrow> (Inr svc, set_slot i (Instance svc) w'))"
    using at slot own cfg by (simp add: inject_service_def SurrealFactory_def)
  have atc: "injector_at ?wc i = Some (node\<lparr>inj_service := Circular\<rparr>)"
    by (rule set_slot_at(1) [OF at])
  have inj': "injectors (snd ?new) = injectors ?wc"
    by (rule new_service_store(2))
  have at': "injector_at (snd ?new) i = Some (node\<lparr>inj_service := Circular\<rparr>)"
    using atc inj' by (auto simp: injector_at_def split: if_splits)
  have n': "n_clients (snd ?new) = Suc (n_clients w)"
    by (simp add: new_service_store(1) set_slot_fields)
  have sk': "map (\<lambda>n. (inj_ancestors n, inj_providers n)) (injectors (snd ?new))
               = map (\<lambda>n. (inj_ancestors n, inj_providers n)) (injectors w)"
    by (simp add: inj' skeleton_set_slot)
  show ?thesis
  proof (cases "fst ?new")
    case (Inl e)
    then have "inject_service P j w = (Inl e, snd ?new)"
      using inj by (cases ?new) simp
    then show ?thesis using n' sk' at' Inl by auto
  next
    case (Inr svc)
    then have new: "?new = (Inr svc, snd ?new)" by (cases ?new) simp
    have svc: "svc = \<lparr>db = n_clients w, config = cfg\<rparr>"
      using new_service_ok(1) [OF new] by (simp add: set_slot_fields)
    have res: "inject_service P j w = (Inr svc, set_slot i (Instance svc) (snd ?new))"
      using inj new by (cases ?new) simp
    have at2: "injector_at (set_slot i (Instance svc) (snd ?new)) i
                 = Some (node\<lparr>inj_service := Instance svc\<rparr>)"
      using set_slot_at(1) [OF at', of "Instance svc"] by simp
    show ?thesis
      using res n' sk' at2 Inr svc by (auto simp: set_slot_fields skeleton_set_slot)
  qed
qed

lemma inject_all_scope:
  assumes at: "injector_at w i = Some node"
    and prov: "inj_providers node = providers (forRoot cfg)"
    and slot: "inj_service node = NotYet"
    and own: "\<forall>j\<in>set (j0 # js). resolve_service_owner w (scope_of w j) = Some i"
  shows "n_clients (snd (inject_all P (j0 # js) w)) = Suc (n_clients w)"
    and "fst (inject_service P j0 w) = Inr svc \<Longrightarrow>
           svc = \<lparr>db = n_clients w, config = cfg\<rparr>
           \<and> fst (inject_all P (j0 # js) w) = replicate (Suc (length js)) (Inr svc)"
    and "fst (inject_service P j0 w) = Inl e \<Longrightarrow>
           fst (inject_all P (j0 # js) w) = Inl e # replicate (length js) (Inl CyclicDependencyError)"
    and "fst (inject_service P j0 w) = fst (SurrealService_new P (Some cfg) (set_slot i Circular w))"
proof -
  have own0: "resolve_service_owner w (scope_of w j0) = Some i"
    using own by simp
  obtain r w2 node2 where first: "inject_service P j0 w = (r, w2)"
    and n2: "n_clients w2 = Suc (n_clients w)"
    and sk: "map (\<lambda>n. (inj_ancestors n, inj_providers n)) (injectors w2)
               = map (\<lambda>n. (inj_ancestors n, inj_providers n)) (injectors w)"
    and at2: "injector_at w2 i = Some node2"
    and r: "r = fst (SurrealService_new P (Some cfg) (set_slot i Circular w))"
    and res: "r = Inr \<lparr>db = n_clients w, config = cfg\<rparr>
                  \<and> inj_service node2 = Instance \<lparr>db = n_clients w, config = cfg\<rparr>
                \<or> (\<exists>e. r = Inl e) \<and> inj_service node2 = Circular"
    using inject_first [OF at prov slot own0, of P] by blast
  have own2: "\<forall>j\<in>set js. resolve_service_owner w2 (scope_of w2 j) = Some i"
    using own by (simp add: skeleton_scope [OF sk] skeleton_owner [OF sk])
  from res have rest: "inject_all P js w2 =
      (replicate (length js) (case r of Inr s \<Rightarrow> Inr s | Inl e \<Rightarrow> Inl CyclicDependencyError), w2)"
  proof
    assume "r = Inr \<lparr>db = n_clients w, config = cfg\<rparr>
              \<and> inj_service node2 = Instance \<lparr>db = n_clients w, config = cfg\<rparr>"
    then show ?thesis using inject_all_cached [OF own2 at2, of _ P] by simp
  next
    assume "(\<exists>e. r = Inl e) \<and> inj_service node2 = Circular"
    then show ?thesis using inject_all_circular [OF own2 at2, of P] by auto
  qed
  have all: "inject_all P (j0 # js) w =
      (r # replicate (length js) (case r of Inr s \<Rightarrow> Inr s | Inl e \<Rightarrow> Inl CyclicDependencyError), w2)"
    using first rest by simp
  show "n_clients (snd (inject_all P (j0 # js) w)) = Suc (n_clients w)"
    using all n2 by simp
  show "fst (inject_service P j0 w) = Inr svc \<Longrightarrow>
           svc = \<lparr>db = n_clients w, config = cfg\<rparr>
           \<and> fst (inject_all P (j0 # js) w) = replicate (Suc (length js)) (Inr svc)"
    using all first res by auto
  show "fst (inject_service P j0 w) = Inl e \<Longrightarrow>
           fst (inject_all P (j0 # js) w) = Inl e # replicate (length js) (Inl CyclicDependencyError)"
    using all first by auto
  show "fst (inject_service P j0 w) = fst (SurrealService_new P (Some cfg) (set_slot i Circular w))"
    using first r by simp
qed

lemma new_service_succeeds:
  assumes "url_parse P (url cfg) = Some u"
    and "\<forall>x. fst (drv_call P M_connect [u, JObj (options cfg)] (drv_new P)) \<noteq> Threw x"
  shows "fst (SurrealService_new P (Some cfg) w) = Inr \<lparr>db = n_clients w, config = cfg\<rparr>"
  using assms
  by (auto simp: SurrealService_new_def Surreal_new_def Let_def connect_def URL_new_def
        db_call_def from_result_def from_rx_def split: prod.splits outcome.splits)

text \<open>
  Claim C4, as stated, fails. Registration stores the configuration and a factory; it
  constructs nothing. With the module registered and the service not yet injected, no
  client exists.
\<close>

theorem one_client_after_registration_counterexample:
  "create_injector None (Some (forRoot demo_config)) (empty_world (demo_platform True))
     = (Inr 0, demo_root)
   \<and> n_clients demo_root = 0"
  by (simp add: demo_defs)

text \<open>
  Claim C4, amended. The module is registered once, with configuration \<open>cfg\<close>, in
  injector \<open>i\<close>; child injectors may be created afterwards; \<open>j0\<close> and \<open>js\<close> are
  injectors whose scope resolves the service to \<open>i\<close>. Then: the registration and the
  child injectors have constructed no client, and \<open>cfg\<close> is the configuration of the
  scope. The first injection constructs one client, and after all the injections, however
  many and from whichever of these injectors, the number of clients is still one more
  than before the registration. If the first injection returns a service object, it is
  the object on that one client with \<open>cfg\<close>, and every injection returns this same
  object. The first injection does return it when the host accepts the registered
  \<open>url\<close> and the driver's \<^verbatim>\<open>connect\<close> does not throw. Every operation invoked on that
  service makes its driver call on that client.
\<close>

theorem one_client_from_first_injection:
  assumes "create_injector parent (Some (forRoot cfg)) w0 = (Inr i, w1)"
    and "\<forall>j\<in>set (j0 # js).
           resolve_service_owner (create_children ps w1) (scope_of (create_children ps w1) j)
             = Some i"
  shows "n_clients (create_children ps w1) = n_clients w0
       \<and> resolve_config (create_children ps w1) (scope_of (create_children ps w1) i) = Some cfg
       \<and> n_clients (snd (inject_all P (j0 # js) (create_children ps w1))) = Suc (n_clients w0)
       \<and> (fst (inject_service P j0 (create_children ps w1)) = Inr svc \<longrightarrow>
            svc = \<lparr>db = n_clients w0, config = cfg\<rparr>
            \<and> fst (inject_all P (j0 # js) (create_children ps w1))
                = replicate (Suc (length js)) (Inr svc))
       \<and> (url_parse P (url cfg) = Some u
            \<and> (\<forall>x. fst (drv_call P M_connect [u, JObj (options cfg)] (drv_new P)) \<noteq> Threw x)
          \<longrightarrow> fst (inject_service P j0 (create_children ps w1))
                = Inr \<lparr>db = n_clients w0, config = cfg\<rparr>)
       \<and> (invoke P \<lparr>db = n_clients w0, config = cfg\<rparr> m args wx = Inr (obs, wy) \<longrightarrow>
            m = M_ready \<and> wy = wx
            \<or> (\<exists>a. calls wy = calls wx @
                  [\<lparr>c_client = n_clients w0, c_method = m, c_args = a,
                    c_result = fst (drv_call P m a (clients wx (n_clients w0)))\<rparr>]))"
proof -
  let ?w = "create_children ps w1"
  let ?svc = "\<lparr>db = n_clients w0, config = cfg\<rparr>"
  have i: "i < length (injectors w1)"
    using register_fresh(1,3) [OF assms(1)] by simp
  obtain node where at: "injector_at ?w i = Some node"
    and prov: "inj_providers node = providers (forRoot cfg)"
    and slot: "inj_service node = NotYet"
    using register_fresh(2) [OF assms(1)] children_keep(3) [OF i, of ps] by simp
  have n: "n_clients ?w = n_clients w0"
    using register_fresh(3) [OF assms(1)] by (simp add: children_keep(1))
  have c: "resolve_config ?w (scope_of ?w i) = Some cfg"
    using at prov by (simp add: scope_of_def forRoot_def)
  note all = inject_all_scope [OF at prov slot assms(2), of P]
  have s: "url_parse P (url cfg) = Some u
            \<and> (\<forall>x. fst (drv_call P M_connect [u, JObj (options cfg)] (drv_new P)) \<noteq> Threw x)
          \<longrightarrow> fst (inject_service P j0 ?w) = Inr ?svc"
  proof
    assume ok: "url_parse P (url cfg) = Some u
            \<and> (\<forall>x. fst (drv_call P M_connect [u, JObj (options cfg)] (drv_new P)) \<noteq> Threw x)"
    have "fst (SurrealService_new P (Some cfg) (set_slot i Circular ?w))
            = Inr \<lparr>db = n_clients (set_slot i Circular ?w), config = cfg\<rparr>"
      using ok by (intro new_service_succeeds) blast+
    then show "fst (inject_service P j0 ?w) = Inr ?svc"
      unfolding all(4) by (simp only: set_slot_fields n)
  qed
  have v: "invoke P ?svc m args wx = Inr (obs, wy) \<longrightarrow>
            m = M_ready \<and> wy = wx
            \<or> (\<exists>a. calls wy = calls wx @
                  [\<lparr>c_client = n_clients w0, c_method = m, c_args = a,
                    c_result = fst (drv_call P m a (clients wx (n_clients w0)))\<rparr>])"
  proof
    assume "invoke P ?svc m args wx = Inr (obs, wy)"
    from invoke_effect [OF this]
    have "m = M_ready \<and> wy = wx \<and> obs = FromPromise (drv_ready P (clients wx (n_clients w0)))
          \<or> (\<exists>a. passed_args P ?svc m args = Some a
                \<and> obs = FromPromise (fst (drv_call P m a (clients wx (n_clients w0))))
                \<and> wy = wx\<lparr>clients := (clients wx)(n_clients w0 :=
                             snd (drv_call P m a (clients wx (n_clients w0)))),
                         calls := calls wx @
                           [\<lparr>c_client = n_clients w0, c_method = m, c_args = a,
                             c_result = fst (drv_call P m a (clients wx (n_clients w0)))\<rparr>]\<rparr>)"
      by simp
    then show "m = M_ready \<and> wy = wx
            \<or> (\<exists>a. calls wy = calls wx @
                  [\<lparr>c_client = n_clients w0, c_method = m, c_args = a,
                    c_result = fst (drv_call P m a (clients wx (n_clients w0)))\<rparr>])"
    proof
      assume "m = M_ready \<and> wy = wx \<and> obs = FromPromise (drv_ready P (clients wx (n_clients w0)))"
      then show ?thesis by blast
    next
      assume "\<exists>a. passed_args P ?svc m args = Some a
                \<and> obs = FromPromise (fst (drv_call P m a (clients wx (n_clients w0))))
                \<and> wy = wx\<lparr>clients := (clients wx)(n_clients w0 :=
                             snd (drv_call P m a (clients wx (n_clients w0)))),
                         calls := calls wx @
                           [\<lparr>c_client = n_clients w0, c_method = m, c_args = a,
                             c_result = fst (drv_call P m a (clients wx (n_clients w0)))\<rparr>]\<rparr>"
      then obtain a where "wy = wx\<lparr>clients := (clients wx)(n_clients w0 :=
                             snd (drv_call P m a (clients wx (n_clients w0)))),
                         calls := calls wx @
                           [\<lparr>c_client = n_clients w0, c_method = m, c_args = a,
                             c_result = fst (drv_call P m a (clients wx (n_clients w0)))\<rparr>]\<rparr>"
        by blast
      then have "calls wy = calls wx @
                  [\<lparr>c_client = n_clients w0, c_method = m, c_args = a,
                    c_result = fst (drv_call P m a (clients wx (n_clients w0)))\<rparr>]"
        by simp
      then show ?thesis by blast
    qed
  qed
  have a1: "n_clients (snd (inject_all P (j0 # js) ?w)) = Suc (n_clients w0)"
    using all(1) n by (simp only:)
  have a2: "fst (inject_service P j0 ?w) = Inr svc \<longrightarrow>
            svc = ?svc \<and> fst (inject_all P (j0 # js) ?w) = replicate (Suc (length js)) (Inr svc)"
    using all(2) [of svc] n by (simp only:) blast
  show ?thesis
    by (intro conjI) (rule n, rule c, rule a1, rule a2, rule s, rule v)
qed

theorem one_client_from_first_injection_witness:
  "create_injector None (Some (forRoot demo_config)) (empty_world (demo_platform True))
     = (Inr 0, demo_root)
   \<and> create_children [0, 1] demo_root = demo_tree
   \<and> resolve_service_owner demo_tree (scope_of demo_tree 2) = Some 0
   \<and> resolve_service_owner demo_tree (scope_of demo_tree 0) = Some 0
   \<and> resolve_service_owner demo_tree (scope_of demo_tree 1) = Some 0
   \<and> url_parse (demo_platform True) (url demo_config)
       = Some (JObj [(''href'', JStr ''http://localhost:8000/rpc'')])
   \<and> fst (drv_call (demo_platform True) M_connect
            [JObj [(''href'', JStr ''http://localhost:8000/rpc'')], JObj (options demo_config)]
            (drv_new (demo_platform True))) = Resolved (JBool True)
   \<and> n_clients demo_tree = 0
   \<and> fst (inject_service (demo_platform True) 2 demo_tree) = Inr demo_service
   \<and> fst (inject_all (demo_platform True) [2, 0, 1] demo_tree)
       = [Inr demo_service, Inr demo_service, Inr demo_service]
   \<and> n_clients (snd (inject_all (demo_platform True) [2, 0, 1] demo_tree)) = 1"
proof -
  let ?P = "demo_platform True"
  let ?u = "JObj [(''href'', JStr ''http://localhost:8000/rpc'')]"
  have h1: "create_injector None (Some (forRoot demo_config)) (empty_world ?P) = (Inr 0, demo_root)"
    by (simp add: demo_defs)
  have h0: "create_children [0, 1] demo_root = demo_tree"
    by (simp add: demo_tree_def)
  have inj: "injectors demo_tree =
      [\<lparr>inj_ancestors = [], inj_module = True, inj_providers = providers (forRoot demo_config),
         inj_service = NotYet\<rparr>,
       \<lparr>inj_ancestors = [0], inj_module = False, inj_providers = [], inj_service = NotYet\<rparr>,
       \<lparr>inj_ancestors = [1, 0], inj_module = False, inj_providers = [], inj_service = NotYet\<rparr>]"
    by (simp add: demo_tree_def demo_root_def create_injector_def scope_of_def injector_at_def
          SurrealModule_new_def empty_world_def Let_def)
  have s2: "resolve_service_owner demo_tree (scope_of demo_tree 2) = Some 0"
    and s0: "resolve_service_owner demo_tree (scope_of demo_tree 0) = Some 0"
    and s1: "resolve_service_owner demo_tree (scope_of demo_tree 1) = Some 0"
    by (simp_all add: scope_of_def injector_at_def inj forRoot_def)
  have h2: "\<forall>j\<in>set (2 # [0, 1]).
           resolve_service_owner (create_children [0, 1] demo_root)
             (scope_of (create_children [0, 1] demo_root) j) = Some 0"
    using s2 s0 s1 unfolding h0 by simp
  have h3: "url_parse ?P (url demo_config) = Some ?u"
    by (simp add: demo_defs)
  have h4: "fst (drv_call ?P M_connect [?u, JObj (options demo_config)] (drv_new ?P))
              = Resolved (JBool True)"
    by (simp add: demo_defs)
  have h5: "n_clients (empty_world ?P) = 0"
    by (simp add: empty_world_def)
  note t = one_client_from_first_injection [OF h1 h2, of ?P demo_service ?u M_ping "[]"
      demo_world "FromPromise Pending" demo_world, unfolded h0 h5]
  have a: "n_clients demo_tree = 0"
    using t [THEN conjunct1] .
  have b: "n_clients (snd (inject_all ?P [2, 0, 1] demo_tree)) = 1"
    using t [THEN conjunct2, THEN conjunct2, THEN conjunct1] by simp
  have c: "fst (inject_service ?P 2 demo_tree) = Inr demo_service"
    using t [THEN conjunct2, THEN conjunct2, THEN conjunct2, THEN conjunct2, THEN conjunct1]
      h3 h4 by (simp add: demo_service_def)
  have d: "fst (inject_all ?P [2, 0, 1] demo_tree)
       = [Inr demo_service, Inr demo_service, Inr demo_service]"
    using t [THEN conjunct2, THEN conjunct2, THEN conjunct2, THEN conjunct1] c
    by (simp add: numeral_3_eq_3)
  show ?thesis
    using h1 h0 s2 s0 s1 h3 h4 a b c d by blast
qed

subsection \<open>Errors raised outside the driver\<close>

text \<open>
  Claim C9, as stated, fails. With a registered \<open>url\<close> that the host's URL constructor
  rejects, injecting the service throws a TypeError out of the constructor's call of
  \<^verbatim>\<open>connect()\<close>; the driver has not been called.
\<close>

theorem only_duplicate_registration_counterexample:
  "create_injector None (Some (forRoot bad_config)) (empty_world (demo_platform True))
     = (Inr 0, bad_root)
   \<and> fst (inject_service (demo_platform True) 0 bad_root) = Inl TypeError_InvalidURL
   \<and> calls (snd (inject_service (demo_platform True) 0 bad_root)) = []"
  by (simp add: bad_root_def bad_config_def demo_defs)

lemma new_service_fails:
  assumes "SurrealService_new P (Some cfg) w = (Inl e, w')"
  shows "calls w' = calls w"
    and "e = TypeError_InvalidURL \<and> url_parse P (url cfg) = None
         \<or> (\<exists>u x. url_parse P (url cfg) = Some u
               \<and> fst (drv_call P M_connect [u, JObj (options cfg)] (drv_new P)) = Threw x
               \<and> e = DriverError x)"
  using assms
  by (auto simp: SurrealService_new_def Surreal_new_def Let_def connect_def URL_new_def
        db_call_def from_result_def
      split: option.splits sum.splits prod.splits outcome.splits)

text \<open>
  Claim C9, amended. Creating an injector fails with the duplicate-registration error
  only, and leaves the store as it was. Constructing the service with a configuration in
  hand fails either with the TypeError of the URL constructor, when the host rejects the
  configured \<open>url\<close>, or with what the driver threw in \<^verbatim>\<open>connect\<close>; in both cases the
  log is as before. On a service that has been constructed, an invocation that throws
  throws what the driver threw in that call, unchanged: no operation throws on its own.
  And a stream that an invocation returns is \<^verbatim>\<open>from\<close> of the driver's answer, so an
  error on it is the driver's rejection.
\<close>

theorem errors_raised_by_the_layer:
  "(create_injector parent imported w = (Inl e, w') \<longrightarrow>
      (\<exists>msg. e = DuplicateRegistration msg) \<and> w' = w)
   \<and> (SurrealService_new P (Some cfg1) w1 = (Inl e1, w1') \<longrightarrow>
        calls w1' = calls w1
        \<and> (e1 = TypeError_InvalidURL \<and> url_parse P (url cfg1) = None
           \<or> (\<exists>u x. url_parse P (url cfg1) = Some u
                 \<and> fst (drv_call P M_connect [u, JObj (options cfg1)] (drv_new P)) = Threw x
                 \<and> e1 = DriverError x)))
   \<and> (SurrealService_new P injected w2 = (Inr svc, w2') \<and> invoke P svc m args wx = Inl e2 \<longrightarrow>
        (\<exists>x. driver_promise P svc m args wx = Some (Threw x) \<and> e2 = DriverError x))
   \<and> (invoke P svc3 m3 args3 wx3 = Inr (obs, w3) \<longrightarrow>
        (\<exists>r. driver_promise P svc3 m3 args3 wx3 = Some r \<and> obs = FromPromise r))"
proof -
  have a: "create_injector parent imported w = (Inl e, w') \<longrightarrow>
      (\<exists>msg. e = DuplicateRegistration msg) \<and> w' = w"
    by (auto simp: create_injector_def SurrealModule_new_def Let_def
          split: option.splits sum.splits)
  have b: "SurrealService_new P (Some cfg1) w1 = (Inl e1, w1') \<longrightarrow>
        calls w1' = calls w1
        \<and> (e1 = TypeError_InvalidURL \<and> url_parse P (url cfg1) = None
           \<or> (\<exists>u x. url_parse P (url cfg1) = Some u
                 \<and> fst (drv_call P M_connect [u, JObj (options cfg1)] (drv_new P)) = Threw x
                 \<and> e1 = DriverError x))"
    using new_service_fails [of P cfg1 w1 e1 w1'] by blast
  have c: "\<exists>x. driver_promise P svc m args wx = Some (Threw x) \<and> e2 = DriverError x"
    if new: "SurrealService_new P injected w2 = (Inr svc, w2')"
      and inv: "invoke P svc m args wx = Inl e2"
  proof -
    obtain cfg where cfg: "injected = Some cfg"
      using new by (cases injected) (auto simp: SurrealService_new_def Let_def split: prod.splits)
    obtain u where u: "url_parse P (url (config svc)) = Some u"
      using new_service_ok(1,2) [OF new [unfolded cfg]] by auto
    obtain r where r: "driver_promise P svc m args wx = Some r"
      using driver_reached [OF u] by blast
    show ?thesis
    proof (cases "\<exists>x. r = Threw x")
      case True
      then obtain x where x: "r = Threw x" by blast
      from invoke_threw [OF r [unfolded x]] inv r x show ?thesis by simp
    next
      case False
      then show ?thesis using invoke_settled [OF r] inv by auto
    qed
  qed
  have d: "\<exists>r. driver_promise P svc3 m3 args3 wx3 = Some r \<and> obs = FromPromise r"
    if inv: "invoke P svc3 m3 args3 wx3 = Inr (obs, w3)"
  proof (cases "driver_promise P svc3 m3 args3 wx3")
    case None
    then show ?thesis using invoke_unreached [OF None] inv by simp
  next
    case (Some r)
    show ?thesis
    proof (cases "\<exists>x. r = Threw x")
      case True
      then obtain x where x: "r = Threw x" by blast
      from invoke_threw [OF Some [unfolded x]] inv show ?thesis by simp
    next
      case False
      then show ?thesis using invoke_settled [OF Some] inv Some by auto
    qed
  qed
  show ?thesis using a b c d by blast
qed

theorem errors_raised_by_the_layer_witness:
  "create_injector (Some 0) (Some (forRoot demo_config)) demo_world =
       (Inl (DuplicateRegistration
          ''SurrealModule is already loaded. Import it in the AppModule or AppConfig only''),
        demo_world)
   \<and> fst (SurrealService_new (demo_platform True) (Some bad_config) bad_root)
       = Inl TypeError_InvalidURL
   \<and> url_parse (demo_platform True) (url bad_config) = None
   \<and> calls (snd (SurrealService_new (demo_platform True) (Some bad_config) bad_root))
       = calls bad_root
   \<and> fst (SurrealService_new (demo_platform True) (Some demo_config) demo_root)
       = Inr demo_service
   \<and> invoke (demo_platform True) demo_service M_rpc [JStr ''ping''] demo_closed
       = Inl (DriverError (JStr ''NoActiveSocket''))
   \<and> driver_promise (demo_platform True) demo_service M_rpc [JStr ''ping''] demo_closed
       = Some (Threw (JStr ''NoActiveSocket''))
   \<and> invoke (demo_platform True) demo_service M_version [] demo_world
       = Inr (FromPromise (Resolved (JArr [])),
              snd (projr (invoke (demo_platform True) demo_service M_version [] demo_world)))
   \<and> driver_promise (demo_platform True) demo_service M_version [] demo_world
       = Some (Resolved (JArr []))"
proof -
  let ?P = "demo_platform True"
  let ?msg = "''SurrealModule is already loaded. Import it in the AppModule or AppConfig only''"
  let ?bad = "SurrealService_new ?P (Some bad_config) bad_root"
  let ?good = "SurrealService_new ?P (Some demo_config) demo_root"
  let ?v = "invoke ?P demo_service M_version [] demo_world"
  have h1: "create_injector (Some 0) (Some (forRoot demo_config)) demo_world =
       (Inl (DuplicateRegistration ?msg), demo_world)"
    by (simp add: demo_defs)
  have h2: "?bad = (Inl TypeError_InvalidURL, snd ?bad)"
    by (simp add: bad_root_def bad_config_def demo_defs)
  have h3: "?good = (Inr demo_service, snd ?good)"
    by (simp add: demo_defs)
  have h4: "invoke ?P demo_service M_rpc [JStr ''ping''] demo_closed
              = Inl (DriverError (JStr ''NoActiveSocket''))"
    by (simp add: rpc_def demo_closed_def status_def computed_read_def close_def demo_defs)
  have h5: "?v = Inr (FromPromise (Resolved (JArr [])), snd (projr ?v))"
    by (simp add: version_def demo_defs)
  have h6: "url_parse ?P (url bad_config) = None"
    by (simp add: bad_config_def demo_defs)
  note t = errors_raised_by_the_layer [of "Some 0" "Some (forRoot demo_config)" demo_world
      "DuplicateRegistration ?msg" demo_world
      ?P bad_config bad_root TypeError_InvalidURL "snd ?bad"
      "Some demo_config" demo_root demo_service "snd ?good"
      M_rpc "[JStr ''ping'']" demo_closed "DriverError (JStr ''NoActiveSocket'')"
      demo_service M_version "[]" demo_world "FromPromise (Resolved (JArr []))"
      "snd (projr ?v)"]
  have b: "calls (snd ?bad) = calls bad_root"
    using t h2 by blast
  have c: "driver_promise ?P demo_service M_rpc [JStr ''ping''] demo_closed
       = Some (Threw (JStr ''NoActiveSocket''))"
    using t h3 h4 by auto
  have d: "driver_promise ?P demo_service M_version [] demo_world = Some (Resolved (JArr []))"
    using t h5 by auto
  have e: "fst ?bad = Inl TypeError_InvalidURL" "fst ?good = Inr demo_service"
    using h2 h3 by (metis fst_conv)+
  show ?thesis using h1 h4 h5 h6 b c d e by blast
qed

end
